theory Spec2Isabelle
  imports Complex_Main "HOL-Library.AList"
begin

section \<open>Reconnect backoff (the module-level \<open>backoff\<close> object)\<close>

text \<open>
  The backoff module exports one object literal. Its configuration fields are numbers
  (of the language: any real, not only a whole one); the three working fields
  \<open>nextBackoffDelay\<close>, \<open>backoffDelay\<close> and \<open>delay\<close> do not exist on the literal and
  are \<open>undefined\<close> until first written, which is \<open>None\<close> here.
\<close>

record backoff =
  initialDelay :: real
  maxDelay :: real
  randomizationFactor :: real
  factor :: real
  nextBackoffDelay :: "real option"
  backoffDelay :: "real option"
  delay :: "int option"

definition backoff_object :: "real \<Rightarrow> real \<Rightarrow> real \<Rightarrow> real \<Rightarrow> backoff" where
  "backoff_object i m rf f =
     \<lparr>initialDelay = i, maxDelay = m, randomizationFactor = rf, factor = f,
      nextBackoffDelay = None, backoffDelay = None, delay = None\<rparr>"

text \<open>The literal as the module writes it: 100 ms, capped at 30 s, factor 3, no jitter.\<close>

definition backoff_module :: backoff where
  "backoff_module = backoff_object 100 30000 0 3"

text \<open>
  \<open>computeDelay\<close>: \<open>!backoff.nextBackoffDelay\<close> holds for \<open>undefined\<close> and for \<open>0\<close>; in
  both cases the next delay restarts from \<open>initialDelay\<close>.
\<close>

definition nextOrInitial :: "backoff \<Rightarrow> real" where
  "nextOrInitial b =
     (case nextBackoffDelay b of
        None \<Rightarrow> initialDelay b
      | Some n \<Rightarrow> if n = 0 then initialDelay b else n)"

definition computeDelay :: "backoff \<Rightarrow> real \<times> backoff" where
  "computeDelay b =
     (let nbd = nextOrInitial b;
          bd = min nbd (maxDelay b)
      in (bd, b\<lparr>nextBackoffDelay := Some (bd * factor b), backoffDelay := Some bd\<rparr>))"

text \<open>
  \<open>next\<close>: the argument \<open>r\<close> is the value \<open>Math.random()\<close> returns in this call;
  \<open>Math.round x\<close> is \<open>\<lfloor>x + 1/2\<rfloor>\<close>, which is \<^const>\<open>round\<close>.
\<close>

definition backoff_next :: "real \<Rightarrow> backoff \<Rightarrow> int \<times> backoff" where
  "backoff_next r b =
     (let (bd, b1) = computeDelay b;
          randomFactor = 1 + r * randomizationFactor b1;
          d = round (bd * randomFactor)
      in (d, b1\<lparr>delay := Some d\<rparr>))"

definition backoff_reset :: "backoff \<Rightarrow> backoff" where
  "backoff_reset b =
     b\<lparr>backoffDelay := Some 0, delay := Some 0, nextBackoffDelay := Some (initialDelay b)\<rparr>"

text \<open>Successive calls of \<open>next\<close>, one per random draw, collecting the returned delays.\<close>

fun backoff_nexts :: "real list \<Rightarrow> backoff \<Rightarrow> int list \<times> backoff" where
  "backoff_nexts [] b = ([], b)"
| "backoff_nexts (r # rs) b =
     (let (d, b1) = backoff_next r b; (ds, b2) = backoff_nexts rs b1 in (d # ds, b2))"

section \<open>JavaScript values\<close>

text \<open>
  Payloads are JavaScript values: \<open>undefined\<close>, \<open>null\<close>, booleans, numbers (the numbers
  that occur are whole: timestamps, counters), strings, and plain objects, whose own
  enumerable properties are kept in insertion order (nothing below depends on the order
  of a payload's fields). The one function value that ends up
  inside a payload is the responder that message dispatch attaches; \<open>JResponder t\<close> is
  that closure, \<open>t\<close> being the response topic found on the payload.
\<close>

datatype jsval =
    JUndefined
  | JNull
  | JBool bool
  | JNum int
  | JStr string
  | JObj "(string \<times> jsval) list"
  | JResponder jsval

datatype error = TypeError | SyntaxError | Error string

text \<open>\<open>!v\<close> is \<open>\<not> truthy v\<close>.\<close>

fun truthy :: "jsval \<Rightarrow> bool" where
  "truthy JUndefined = False"
| "truthy JNull = False"
| "truthy (JBool b) = b"
| "truthy (JNum n) = (n \<noteq> 0)"
| "truthy (JStr s) = (s \<noteq> [])"
| "truthy (JObj kvs) = True"
| "truthy (JResponder t) = True"

text \<open>
  \<open>v[k]\<close> for a key that names no built-in property: reading a property of \<open>undefined\<close>
  or \<open>null\<close> throws a TypeError, a primitive or a function has no such property.
\<close>

fun get_prop :: "jsval \<Rightarrow> string \<Rightarrow> error + jsval" where
  "get_prop JUndefined k = Inl TypeError"
| "get_prop JNull k = Inl TypeError"
| "get_prop (JObj kvs) k = Inr (case map_of kvs k of None \<Rightarrow> JUndefined | Some v \<Rightarrow> v)"
| "get_prop v k = Inr JUndefined"

text \<open>
  \<open>v[k] = x\<close> in strict mode (every module starts with \<open>'use strict'\<close>): an object gets
  the property, in place when it has the key and as its last key otherwise; a primitive
  throws a TypeError. Own properties written to a function value are not tracked.
\<close>

fun set_prop :: "jsval \<Rightarrow> string \<Rightarrow> jsval \<Rightarrow> error + jsval" where
  "set_prop (JObj kvs) k x = Inr (JObj (AList.update k x kvs))"
| "set_prop (JResponder t) k x = Inr (JResponder t)"
| "set_prop v k x = Inl TypeError"

section \<open>What the platform and the packages provide\<close>

text \<open>
  \<open>JSON.parse\<close> (\<open>None\<close> when it throws a SyntaxError), \<open>JSON.stringify\<close> and the
  \<open>mqtt-match\<close> package's function are not code of this repository: the model takes them
  as parameters, and what is proved of the client holds for every such triple.
\<close>

record platform =
  JSON_parse :: "string \<Rightarrow> jsval option"
  JSON_stringify :: "jsval \<Rightarrow> string"
  mqtt_match :: "string \<Rightarrow> string \<Rightarrow> bool"

text \<open>
  Modelled from the spec: the \<open>gextend\<close> package's \<open>extend(target, ...sources)\<close> is not
  under src/. The spec describes the merge it performs: the sources are combined left
  to right into the target and on a key collision the later source wins, so that fields
  injected first act as defaults. \<open>assign\<close> merges one source: each of its fields is
  written to the target, in the source's order; a source that is not an object
  contributes no field.
\<close>

fun assign :: "(string \<times> jsval) list \<Rightarrow> jsval \<Rightarrow> (string \<times> jsval) list" where
  "assign target (JObj kvs) = foldl (\<lambda>t (k, v). AList.update k v t) target kvs"
| "assign target v = target"

text \<open>
  Modelled from the spec: \<open>extend(target, ...sources)\<close> of the \<open>gextend\<close> package (not
  under src/), the sources merged into the target from left to right.
\<close>

definition gextend :: "(string \<times> jsval) list \<Rightarrow> jsval list \<Rightarrow> (string \<times> jsval) list" where
  "gextend target sources = foldl assign target sources"

section \<open>Topic matching\<close>

text \<open>
  Modelled from the spec: the function \<open>match\<close> that message dispatch calls is the
  \<open>mqtt-match\<close> package, which is not under src/. The spec has pattern and topic split
  into \<open>/\<close>-delimited segments; \<open>split_on\<close> is that split (as \<open>s.split(c)\<close>: the empty
  string has one, empty, segment).
\<close>

fun split_on :: "char \<Rightarrow> string \<Rightarrow> string list" where
  "split_on c [] = [[]]"
| "split_on c (x # xs) =
     (if x = c then [] # split_on c xs
      else (case split_on c xs of
              [] \<Rightarrow> [[x]]
            | seg # segs \<Rightarrow> (x # seg) # segs))"

text \<open>Modelled from the spec: the \<open>/\<close>-delimited segments of a pattern or a topic.\<close>

definition segments :: "string \<Rightarrow> string list" where
  "segments s = split_on (CHR ''/'') s"

text \<open>
  Modelled from the spec: the comparison of \<open>mqtt-match\<close> (not under src/), segment by
  segment: a literal segment must equal the topic's segment, \<open>+\<close> matches exactly one
  arbitrary segment, \<open>#\<close> as the last pattern segment matches zero or more trailing
  segments, and the segment counts must otherwise agree. (A \<open>#\<close> that is not last is no
  wildcard here: the spec allows it nowhere else.)
\<close>

fun matches_segments :: "string list \<Rightarrow> string list \<Rightarrow> bool" where
  "matches_segments [] [] = True"
| "matches_segments [] (t # ts) = False"
| "matches_segments (p # ps) ts =
     (if p = ''#'' \<and> ps = [] then True
      else (case ts of
              [] \<Rightarrow> False
            | t # ts' \<Rightarrow> (p = ''+'' \<or> p = t) \<and> matches_segments ps ts'))"

text \<open>
  Modelled from the spec: \<open>matches(pattern, topic)\<close>, the function of the \<open>mqtt-match\<close>
  package (not under src/) on the two strings.
\<close>

definition matches :: "string \<Rightarrow> string \<Rightarrow> bool" where
  "matches pattern topic = matches_segments (segments pattern) (segments topic)"

text \<open>
  One pattern segment that is no \<open>#\<close> against one topic segment: \<open>+\<close> accepts any
  segment, a literal accepts itself. The general rule of matching is stated with it.
\<close>

definition segment_ok :: "string \<Rightarrow> string \<Rightarrow> bool" where
  "segment_ok p t = (p = ''+'' \<or> p = t)"

section \<open>Configuration\<close>

text \<open>
  \<open>options.format\<close> is called only when it is a function; a format function returns a
  value or throws.
\<close>

datatype fmt = FormatFn "jsval \<Rightarrow> error + jsval" | FormatOther

text \<open>
  \<open>config.responseOptions\<close> after the defaults are merged in: the literal of \<open>DEFAULTS\<close>
  gives every key a value.
\<close>

record response_options =
  callerKey :: string
  topicKey :: string
  timeoutResponseAfter :: nat
  format :: fmt

definition defaultResponseOptions :: response_options where
  "defaultResponseOptions =
     \<lparr>callerKey = ''response'', topicKey = ''respondTo'',
      timeoutResponseAfter = 40 * 1000, format = FormatFn Inr\<rparr>"

text \<open>
  The \<open>options\<close> argument of one \<open>request\<close> call: any subset of the keys (\<open>None\<close>: the
  key is absent). \<open>extend({}, defaultResponseOptions, config.responseOptions, options)\<close>
  lets a key of \<open>options\<close> win; \<open>config.responseOptions\<close> has every key and so hides
  \<open>defaultResponseOptions\<close>.
\<close>

record call_options =
  opt_callerKey :: "string option"
  opt_topicKey :: "string option"
  opt_timeoutResponseAfter :: "nat option"
  opt_format :: "fmt option"

definition no_options :: call_options where
  "no_options =
     \<lparr>opt_callerKey = None, opt_topicKey = None, opt_timeoutResponseAfter = None,
      opt_format = None\<rparr>"

text \<open>
  Modelled from the spec: the merge of \<open>extend\<close> (the \<open>gextend\<close> package, not under
  src/) on option objects: a key that the later source has wins.
\<close>

definition extend_options :: "response_options \<Rightarrow> call_options \<Rightarrow> response_options" where
  "extend_options base opts =
     \<lparr>callerKey = (case opt_callerKey opts of None \<Rightarrow> callerKey base | Some v \<Rightarrow> v),
      topicKey = (case opt_topicKey opts of None \<Rightarrow> topicKey base | Some v \<Rightarrow> v),
      timeoutResponseAfter =
        (case opt_timeoutResponseAfter opts of None \<Rightarrow> timeoutResponseAfter base | Some v \<Rightarrow> v),
      format = (case opt_format opts of None \<Rightarrow> format base | Some v \<Rightarrow> v)\<rparr>"

text \<open>
  A topic handler is a JavaScript function. Two kinds occur: the \<open>$handler\<close> closure
  that \<open>request\<close> creates (it captures the request's number, its response topic and
  \<open>options.format\<close>), and a function of the application, of which the model keeps what
  dispatch can observe: whether a call with a topic and a payload returns or throws.
\<close>

datatype handler =
    ResponseHandler nat string fmt
  | UserHandler "string \<Rightarrow> jsval \<Rightarrow> error option"

text \<open>
  The configuration object after \<open>extend({}, DEFAULTS, config)\<close>. The two
  \<open>transforms.ensure\<close> entries are \<open>None\<close> when set to \<open>false\<close> and the field name
  otherwise; \<open>cfg_handlers\<close> are the static subscriptions (\<open>undefined\<close> is \<open>None\<close>).
\<close>

record config =
  connectionNeeded :: bool
  maxConnectionAttempts :: nat
  responseOptions :: response_options
  onconnect_topic :: string
  clientId :: jsval
  transforms_ensure_uuid :: "string option"
  transforms_ensure_timestamp :: "string option"
  cfg_handlers :: "(string \<times> handler option) list"

definition DEFAULTS :: config where
  "DEFAULTS =
     \<lparr>connectionNeeded = True, maxConnectionAttempts = 8,
      responseOptions = defaultResponseOptions, onconnect_topic = ''service/up'',
      clientId = JUndefined, transforms_ensure_uuid = Some ''uuid'',
      transforms_ensure_timestamp = Some ''timestamp'', cfg_handlers = []\<rparr>"

section \<open>Transforms\<close>

text \<open>
  The generators \<open>getId\<close> (default: a version 4 UUID) and \<open>genTimestamp\<close> (default:
  \<open>Date.now()\<close>) are not functions of their arguments: \<open>gens\<close> holds the values they
  return during one \<open>publish\<close>.
\<close>

record gens =
  getId :: jsval
  genTimestamp :: jsval

type_synonym transform = "gens \<Rightarrow> jsval \<Rightarrow> error + jsval"

text \<open>\<open>ensure.uuid\<close>: \<open>if (!data[fieldName]) data[fieldName] = getId(); return data\<close>.\<close>

definition ensure_uuid :: "config \<Rightarrow> transform option" where
  "ensure_uuid config =
     (case transforms_ensure_uuid config of
        None \<Rightarrow> None
      | Some fieldName \<Rightarrow>
          Some (\<lambda>g data.
            case get_prop data fieldName of
              Inl e \<Rightarrow> Inl e
            | Inr cur \<Rightarrow> if \<not> truthy cur then set_prop data fieldName (getId g) else Inr data))"

text \<open>\<open>ensure.timestamp\<close>, the same with \<open>genTimestamp\<close>.\<close>

definition ensure_timestamp :: "config \<Rightarrow> transform option" where
  "ensure_timestamp config =
     (case transforms_ensure_timestamp config of
        None \<Rightarrow> None
      | Some fieldName \<Rightarrow>
          Some (\<lambda>g data.
            case get_prop data fieldName of
              Inl e \<Rightarrow> Inl e
            | Inr cur \<Rightarrow>
                if \<not> truthy cur then set_prop data fieldName (genTimestamp g) else Inr data))"

text \<open>The third transform: \<open>function(data = {}) { return JSON.stringify(data); }\<close>.\<close>

definition serialize :: "platform \<Rightarrow> transform" where
  "serialize P = (\<lambda>g data.
     Inr (JStr (JSON_stringify P (if data = JUndefined then JObj [] else data))))"

text \<open>
  \<open>_transforms.reduce((_data, tx) => tx(_data, this), data)\<close>: a left fold which an
  exception of a transform leaves.
\<close>

fun reduce_transforms :: "transform list \<Rightarrow> gens \<Rightarrow> jsval \<Rightarrow> error + jsval" where
  "reduce_transforms [] g d = Inr d"
| "reduce_transforms (tx # txs) g d =
     (case tx g d of Inl e \<Rightarrow> Inl e | Inr d' \<Rightarrow> reduce_transforms txs g d')"

section \<open>Response middleware\<close>

text \<open>A middleware is called with (response, data, error) and returns the next response.\<close>

type_synonym middleware = "jsval \<Rightarrow> jsval \<Rightarrow> jsval \<Rightarrow> error + jsval"

fun reduce_middleware :: "middleware list \<Rightarrow> jsval \<Rightarrow> jsval \<Rightarrow> jsval \<Rightarrow> error + jsval" where
  "reduce_middleware [] data err response = Inr response"
| "reduce_middleware (m # ms) data err response =
     (case m response data err of
        Inl e \<Rightarrow> Inl e
      | Inr response' \<Rightarrow> reduce_middleware ms data err response')"

section \<open>The client object\<close>

text \<open>
  The timer of a request: \<open>request\<close> arms it when \<open>timeoutResponseAfter\<close> is truthy, the
  response handler clears it, the runtime fires it. A promise settles once: \<open>resolve\<close>
  and \<open>reject\<close> change it only while it is pending.
\<close>

datatype timer = NoTimer | Armed | Cleared | Fired

datatype promise = Pending | Resolved jsval | Rejected error

text \<open>
  The state that \<open>$initPubSubMQTT\<close> creates and its closures share: \<open>config.handlers\<close>
  (an object: keys in insertion order, a removed handler stays as a key that holds
  \<open>undefined\<close>), the timers and promises of the requests made so far (by request number),
  \<open>pubsub._transforms\<close> and \<open>pubsub.responseMiddleware\<close> (\<open>undefined\<close> until the first
  \<open>add\<close>), the connection fields, and what the client did to the outside: the topics it
  subscribed to, the messages it handed to the transport, the handler calls it made
  (pattern, topic, payload) and the events it emitted.
\<close>

record pubsub =
  handlers :: "(string \<times> handler option) list"
  next_request :: nat
  timers :: "nat \<Rightarrow> timer"
  promises :: "nat \<Rightarrow> promise"
  transforms :: "transform list option"
  responseMiddleware :: "middleware list option"
  online :: bool
  connectionAttempt :: nat
  notifiedInitialConnection :: bool
  reconnectPeriod :: "int option"
  ended :: bool
  subscribed :: "string list"
  published :: "(string \<times> jsval) list"
  calls :: "(string \<times> string \<times> jsval) list"
  emitted :: "string list"

text \<open>
  \<open>Object.keys\<close> of the handler table: the keys that are array indices (the decimal
  numeral, without leading zero, of a whole number up to \<open>2^32 - 2\<close>) come first, in
  ascending numeric order, then the other keys in the order of their insertion.
\<close>

definition digit_of :: "char \<Rightarrow> nat option" where
  "digit_of c =
     (if of_char (CHR ''0'') \<le> (of_char c :: nat) \<and> (of_char c :: nat) \<le> of_char (CHR ''9'')
      then Some (of_char c - of_char (CHR ''0'')) else None)"

fun decimal :: "nat \<Rightarrow> string \<Rightarrow> nat option" where
  "decimal n [] = Some n"
| "decimal n (c # cs) =
     (case digit_of c of None \<Rightarrow> None | Some d \<Rightarrow> decimal (10 * n + d) cs)"

definition array_index :: "string \<Rightarrow> nat option" where
  "array_index k =
     (case k of
        [] \<Rightarrow> None
      | c # cs \<Rightarrow>
          if c = CHR ''0'' \<and> cs \<noteq> [] then None
          else if 10 < length k then None
          else (case decimal 0 k of
                  None \<Rightarrow> None
                | Some n \<Rightarrow> if n \<le> 4294967294 then Some n else None))"

definition object_keys :: "(string \<times> 'a) list \<Rightarrow> string list" where
  "object_keys kvs =
     map snd (sort_key fst
       (List.map_filter (\<lambda>k. case array_index k of None \<Rightarrow> None | Some n \<Rightarrow> Some (n, k))
          (map fst kvs)))
     @ filter (\<lambda>k. array_index k = None) (map fst kvs)"

definition getHandlerForTopic :: "pubsub \<Rightarrow> string \<Rightarrow> handler option" where
  "getHandlerForTopic s topic = (case map_of (handlers s) topic of None \<Rightarrow> None | Some h \<Rightarrow> h)"

definition setHandlerForTopic :: "string \<Rightarrow> handler option \<Rightarrow> pubsub \<Rightarrow> pubsub" where
  "setHandlerForTopic topic h s = s\<lparr>handlers := AList.update topic h (handlers s)\<rparr>"

definition subscribe :: "string \<Rightarrow> handler option \<Rightarrow> pubsub \<Rightarrow> pubsub" where
  "subscribe topic h s =
     (let s1 = setHandlerForTopic topic h s in s1\<lparr>subscribed := subscribed s1 @ [topic]\<rparr>)"

text \<open>\<open>addTransform\<close>: the array is created first, a value that is no function is ignored.\<close>

definition addTransform :: "transform option \<Rightarrow> pubsub \<Rightarrow> pubsub" where
  "addTransform tx s =
     (let txs = (case transforms s of None \<Rightarrow> [] | Some l \<Rightarrow> l)
      in case tx of
           None \<Rightarrow> s\<lparr>transforms := Some txs\<rparr>
         | Some f \<Rightarrow> s\<lparr>transforms := Some (txs @ [f])\<rparr>)"

definition applyTransforms :: "gens \<Rightarrow> jsval \<Rightarrow> pubsub \<Rightarrow> error + jsval" where
  "applyTransforms g data s =
     (case transforms s of
        None \<Rightarrow> Inl TypeError
      | Some txs \<Rightarrow> reduce_transforms txs g (if data = JUndefined then JObj [] else data))"

definition addResponseMiddleware :: "middleware option \<Rightarrow> pubsub \<Rightarrow> pubsub" where
  "addResponseMiddleware mw s =
     (let mws = (case responseMiddleware s of None \<Rightarrow> [] | Some l \<Rightarrow> l)
      in case mw of
           None \<Rightarrow> s\<lparr>responseMiddleware := Some mws\<rparr>
         | Some f \<Rightarrow> s\<lparr>responseMiddleware := Some (mws @ [f])\<rparr>)"

text \<open>
  \<open>applyResponseMiddleware\<close>: the reduction starts from \<open>{}\<close> and runs only when the
  array exists and is not empty; otherwise the result is \<open>data\<close>.
\<close>

definition applyResponseMiddleware :: "jsval \<Rightarrow> jsval \<Rightarrow> pubsub \<Rightarrow> error + jsval" where
  "applyResponseMiddleware data err s =
     (case responseMiddleware s of
        None \<Rightarrow> Inr data
      | Some mws \<Rightarrow>
          if 0 < length mws then reduce_middleware mws data err (JObj []) else Inr data)"

text \<open>
  \<open>publish\<close>: the transformed data is handed to the transport; an exception of a
  transform leaves before anything is sent.
\<close>

definition publish :: "gens \<Rightarrow> string \<Rightarrow> jsval \<Rightarrow> pubsub \<Rightarrow> error option \<times> pubsub" where
  "publish g topic data s =
     (case applyTransforms g (if data = JUndefined then JStr [] else data) s of
        Inl e \<Rightarrow> (Some e, s)
      | Inr data' \<Rightarrow> (None, s\<lparr>published := published s @ [(topic, data')]\<rparr>))"

text \<open>\<open>fastPublish\<close>: no transform; anything but a string is serialized.\<close>

definition fastPublish :: "platform \<Rightarrow> string \<Rightarrow> jsval \<Rightarrow> pubsub \<Rightarrow> pubsub" where
  "fastPublish P topic data s =
     (let data' = (case data of JStr t \<Rightarrow> JStr t | v \<Rightarrow> JStr (JSON_stringify P v))
      in s\<lparr>published := published s @ [(topic, data')]\<rparr>)"

text \<open>
  \<open>_appendToPayload(payload, data)\<close>: the empty string stands for \<open>{}\<close>, any other string
  is parsed (\<open>JSON.parse\<close> throws on text that is not JSON), and the result is
  \<open>extend({}, data, payload)\<close>.
\<close>

definition appendToPayload :: "platform \<Rightarrow> jsval \<Rightarrow> jsval \<Rightarrow> error + jsval" where
  "appendToPayload P payload data =
     (let payload1 = (if payload = JUndefined then JObj [] else payload);
          data1 = (if data = JUndefined then JObj [] else data);
          payload2 = (if payload1 = JStr [] then JObj [] else payload1)
      in case payload2 of
           JStr text \<Rightarrow>
             (case JSON_parse P text of
                None \<Rightarrow> Inl SyntaxError
              | Some v \<Rightarrow> Inr (JObj (gextend [] [data1, v])))
         | v \<Rightarrow> Inr (JObj (gextend [] [data1, v])))"

definition resolve :: "nat \<Rightarrow> jsval \<Rightarrow> pubsub \<Rightarrow> pubsub" where
  "resolve i v s =
     s\<lparr>promises := (promises s)(i := (case promises s i of Pending \<Rightarrow> Resolved v | p \<Rightarrow> p))\<rparr>"

definition reject :: "nat \<Rightarrow> error \<Rightarrow> pubsub \<Rightarrow> pubsub" where
  "reject i e s =
     s\<lparr>promises := (promises s)(i := (case promises s i of Pending \<Rightarrow> Rejected e | p \<Rightarrow> p))\<rparr>"

text \<open>\<open>if (_handler._timeoutId) clearTimeout(_handler._timeoutId)\<close>.\<close>

definition clearTimeout :: "nat \<Rightarrow> pubsub \<Rightarrow> pubsub" where
  "clearTimeout i s =
     s\<lparr>timers := (timers s)(i := (case timers s i of Armed \<Rightarrow> Cleared | t \<Rightarrow> t))\<rparr>"

text \<open>
  The callback given to \<open>setTimeout\<close>, when the runtime runs it (it runs an armed timer
  only): it logs and rejects.
\<close>

definition timer_fire :: "nat \<Rightarrow> pubsub \<Rightarrow> pubsub" where
  "timer_fire i s =
     (if timers s i = Armed
      then reject i (Error ''Timeout error'') (s\<lparr>timers := (timers s)(i := Fired)\<rparr>)
      else s)"

text \<open>
  The function given to \<open>new Promise\<close> in \<open>request\<close>: it creates the handler, arms the
  timer when \<open>timeoutResponseAfter\<close> is truthy, subscribes the handler to the response
  topic and publishes the payload. An exception inside it rejects the promise. The
  result is the number of the request, by which its promise and its timer are found.
\<close>

definition request_executor ::
  "gens \<Rightarrow> string \<Rightarrow> jsval \<Rightarrow> response_options \<Rightarrow> string \<Rightarrow> pubsub \<Rightarrow> nat \<times> pubsub" where
  "request_executor g topic payload options responseTopic s =
     (let i = next_request s;
          s1 = s\<lparr>next_request := Suc i,
                 promises := (promises s)(i := Pending),
                 timers := (timers s)(i :=
                   (if 0 < timeoutResponseAfter options then Armed else NoTimer))\<rparr>;
          s2 = subscribe responseTopic
                 (Some (ResponseHandler i responseTopic (format options))) s1
      in case publish g topic payload s2 of
           (None, s3) \<Rightarrow> (i, s3)
         | (Some e, s3) \<Rightarrow> (i, reject i e s3))"

text \<open>
  \<open>request\<close>: \<open>rndm\<close> is the value of \<open>makeGuid()\<close> in this call. The payload is prepared
  before the promise exists, so an exception there is thrown to the caller.
\<close>

definition request ::
  "platform \<Rightarrow> config \<Rightarrow> string \<Rightarrow> gens \<Rightarrow> string \<Rightarrow> jsval \<Rightarrow> call_options \<Rightarrow> pubsub
     \<Rightarrow> (error + nat) \<times> pubsub" where
  "request P cfg rndm g topic data opts s =
     (let data1 = (if data = JUndefined then JStr [] else data);
          options = extend_options (responseOptions cfg) opts;
          responseTopic = topic @ ''/res/'' @ rndm
      in case appendToPayload P data1 (JObj [(topicKey options, JStr responseTopic)]) of
           Inl e \<Rightarrow> (Inl e, s)
         | Inr payload \<Rightarrow>
             (let (i, s') = request_executor g topic payload options responseTopic s
              in (Inr i, s')))"

text \<open>
  \<open>$handler(topic, event)\<close>: \<open>Object.keys(event)\<close> throws on \<open>null\<close> and \<open>undefined\<close>;
  then the timer is cleared, the handler of the response topic is set to \<open>undefined\<close>, the
  event is formatted and the promise resolved.
\<close>

definition apply_format :: "fmt \<Rightarrow> jsval \<Rightarrow> error + jsval" where
  "apply_format fm event = (case fm of FormatOther \<Rightarrow> Inr event | FormatFn f \<Rightarrow> f event)"

definition response_handler ::
  "nat \<Rightarrow> string \<Rightarrow> fmt \<Rightarrow> string \<Rightarrow> jsval \<Rightarrow> pubsub \<Rightarrow> error option \<times> pubsub" where
  "response_handler i responseTopic fm topic event s =
     (if event = JNull \<or> event = JUndefined then (Some TypeError, s)
      else
        (let s1 = clearTimeout i s;
             s2 = setHandlerForTopic responseTopic None s1
         in case apply_format fm event of
              Inl e \<Rightarrow> (Some e, s2)
            | Inr event' \<Rightarrow> (None, resolve i event' s2)))"

section \<open>Message dispatch\<close>

text \<open>The payload of a message: the parsed JSON, or the text itself when it is no JSON.\<close>

definition message_payload :: "platform \<Rightarrow> string \<Rightarrow> jsval" where
  "message_payload P message =
     (case JSON_parse P message of Some v \<Rightarrow> v | None \<Rightarrow> JStr message)"

text \<open>
  A payload that carries a truthy \<open>topicKey\<close> field gets the responder under
  \<open>callerKey\<close>. Reading the field of a \<open>null\<close> payload throws.
\<close>

definition attach_responder :: "config \<Rightarrow> jsval \<Rightarrow> error + jsval" where
  "attach_responder cfg payload =
     (case get_prop payload (topicKey (responseOptions cfg)) of
        Inl e \<Rightarrow> Inl e
      | Inr t \<Rightarrow>
          if truthy t then set_prop payload (callerKey (responseOptions cfg)) (JResponder t)
          else Inr payload)"

text \<open>\<open>handler.call(context, topic, payload)\<close> for the handler found under \<open>key\<close>.\<close>

definition invoke ::
  "handler \<Rightarrow> string \<Rightarrow> string \<Rightarrow> jsval \<Rightarrow> pubsub \<Rightarrow> error option \<times> pubsub" where
  "invoke h key topic payload s =
     (let s1 = s\<lparr>calls := calls s @ [(key, topic, payload)]\<rparr>
      in case h of
           ResponseHandler i responseTopic fm \<Rightarrow>
             response_handler i responseTopic fm topic payload s1
         | UserHandler f \<Rightarrow> (f topic payload, s1))"

text \<open>
  The body of the \<open>message\<close> listener: \<open>Object.keys(config.handlers).map(...)\<close> visits the
  keys the table had when the message came, in the order of \<open>Object.keys\<close>. Only \<open>JSON.parse\<close> is inside
  a \<open>try\<close>; an exception anywhere else leaves the loop and the listener with the state
  as it is then. Calling a handler that is \<open>undefined\<close> throws a TypeError.
\<close>

fun dispatch ::
  "platform \<Rightarrow> config \<Rightarrow> string list \<Rightarrow> string \<Rightarrow> string \<Rightarrow> pubsub \<Rightarrow> error option \<times> pubsub" where
  "dispatch P cfg [] topic message s = (None, s)"
| "dispatch P cfg (key # keys) topic message s =
     (if \<not> mqtt_match P key topic then dispatch P cfg keys topic message s
      else
        (case attach_responder cfg (message_payload P message) of
           Inl e \<Rightarrow> (Some e, s)
         | Inr payload \<Rightarrow>
             (case getHandlerForTopic s key of
                None \<Rightarrow> (Some TypeError, s)
              | Some h \<Rightarrow>
                  (case invoke h key topic payload s of
                     (Some e, s') \<Rightarrow> (Some e, s')
                   | (None, s') \<Rightarrow> dispatch P cfg keys topic message s'))))"

definition on_message :: "platform \<Rightarrow> config \<Rightarrow> string \<Rightarrow> string \<Rightarrow> pubsub \<Rightarrow> error option \<times> pubsub" where
  "on_message P cfg topic message s = dispatch P cfg (object_keys (handlers s)) topic message s"

text \<open>
  What the visit of one table entry throws, if anything, once the payload is prepared:
  an entry that holds \<open>undefined\<close> cannot be called (TypeError), a function of the
  application throws or returns, and the handler of a request throws what
  \<open>Object.keys\<close> or \<open>options.format\<close> throws.
\<close>

definition entry_throws :: "handler option \<Rightarrow> string \<Rightarrow> jsval \<Rightarrow> error option" where
  "entry_throws h topic payload =
     (case h of
        None \<Rightarrow> Some TypeError
      | Some (UserHandler f) \<Rightarrow> f topic payload
      | Some (ResponseHandler i responseTopic fm) \<Rightarrow>
          if payload = JNull \<or> payload = JUndefined then Some TypeError
          else (case apply_format fm payload of Inl e \<Rightarrow> Some e | Inr v \<Rightarrow> None))"

text \<open>
  What happens to one client after a request was made: a message arrives, or the
  runtime fires the timer of a request. The events of a list are taken in order, each on
  the state the one before left (also when a listener threw).
\<close>

datatype event = Message string string | TimerFire nat

fun step :: "platform \<Rightarrow> config \<Rightarrow> event \<Rightarrow> pubsub \<Rightarrow> error option \<times> pubsub" where
  "step P cfg (Message topic message) s = on_message P cfg topic message s"
| "step P cfg (TimerFire i) s = (None, timer_fire i s)"

fun run :: "platform \<Rightarrow> config \<Rightarrow> event list \<Rightarrow> pubsub \<Rightarrow> pubsub" where
  "run P cfg [] s = s"
| "run P cfg (ev # evs) s = run P cfg evs (snd (step P cfg ev s))"

section \<open>Initialisation and the connection listeners\<close>

text \<open>
  \<open>$initPubSubMQTT\<close>: the new client object, then the three default transforms in
  this order. \<open>client_options\<close> is the \<open>reconnectPeriod\<close> of the transport client that
  \<open>config.createClient\<close> returned (\<open>None\<close>: that client has no \<open>options\<close>).
\<close>

definition initPubSubMQTT :: "platform \<Rightarrow> config \<Rightarrow> int option \<Rightarrow> pubsub" where
  "initPubSubMQTT P cfg client_options =
     addTransform (Some (serialize P))
       (addTransform (ensure_timestamp cfg)
          (addTransform (ensure_uuid cfg)
             \<lparr>handlers = cfg_handlers cfg, next_request = 0,
              timers = (\<lambda>i. NoTimer), promises = (\<lambda>i. Pending),
              transforms = None, responseMiddleware = None,
              online = False, connectionAttempt = 0, notifiedInitialConnection = False,
              reconnectPeriod = client_options, ended = False,
              subscribed = [], published = [], calls = [], emitted = []\<rparr>))"

text \<open>
  The listeners use the \<open>backoff\<close> object of the backoff module, which \<open>require\<close>
  evaluates once: the listeners of every client read and write the same object. A
  listener therefore maps the module's object and its own client to the new pair.
\<close>

definition on_connect :: "platform \<Rightarrow> config \<Rightarrow> backoff \<times> pubsub \<Rightarrow> backoff \<times> pubsub" where
  "on_connect P cfg bs =
     (let (b, s) = bs;
          s1 = s\<lparr>online := True, connectionAttempt := 0\<rparr>;
          b1 = backoff_reset b;
          s2 = (if onconnect_topic cfg \<noteq> []
                then s1\<lparr>published := published s1 @
                       [(onconnect_topic cfg,
                         JStr (JSON_stringify P
                           (JObj [(''action'', JStr ''up''), (''client'', clientId cfg)])))]\<rparr>
                else s1);
          s3 = s2\<lparr>subscribed := subscribed s2 @ object_keys (handlers s2)\<rparr>;
          s4 = (if \<not> notifiedInitialConnection s3
                then s3\<lparr>notifiedInitialConnection := True, emitted := emitted s3 @ [''ready'']\<rparr>
                else s3\<lparr>emitted := emitted s3 @ [''connect'']\<rparr>)
      in (b1, s4))"

text \<open>
  The \<open>reconnect\<close> listener; \<open>r\<close> is the value of \<open>Math.random()\<close> should \<open>next\<close> be
  called. Beyond \<open>maxConnectionAttempts\<close> it throws when the connection is needed and
  ends the client otherwise.
\<close>

definition on_reconnect ::
  "config \<Rightarrow> real \<Rightarrow> backoff \<times> pubsub \<Rightarrow> error option \<times> backoff \<times> pubsub" where
  "on_reconnect cfg r bs =
     (let (b, s) = bs;
          s1 = s\<lparr>online := False, connectionAttempt := Suc (connectionAttempt s)\<rparr>
      in if maxConnectionAttempts cfg < connectionAttempt s1 \<and> connectionNeeded cfg
         then (Some (Error ''Unable to stablish a connection with client''), b, s1)
         else
           (let s2 = (if maxConnectionAttempts cfg < connectionAttempt s1
                      then s1\<lparr>ended := True\<rparr> else s1);
                s3 = s2\<lparr>emitted := emitted s2 @ [''reconnect'']\<rparr>
            in case reconnectPeriod s3 of
                 None \<Rightarrow> (None, b, s3)
               | Some p \<Rightarrow>
                   (let (d, b1) = backoff_next r b
                    in (None, b1, s3\<lparr>reconnectPeriod := Some d\<rparr>))))"

text \<open>
  Several clients in one process: the one backoff object of the module, and each
  client (numbered) with its configuration. A connection event belongs to one client.
\<close>

record process =
  module_backoff :: backoff
  clients :: "nat \<Rightarrow> pubsub"
  configs :: "nat \<Rightarrow> config"

datatype connection_event = Connect nat | Reconnect nat real

fun connection_step ::
  "platform \<Rightarrow> connection_event \<Rightarrow> process \<Rightarrow> error option \<times> process" where
  "connection_step P (Connect c) w =
     (let (b, s) = on_connect P (configs w c) (module_backoff w, clients w c)
      in (None, w\<lparr>module_backoff := b, clients := (clients w)(c := s)\<rparr>))"
| "connection_step P (Reconnect c r) w =
     (let (e, b, s) = on_reconnect (configs w c) r (module_backoff w, clients w c)
      in (e, w\<lparr>module_backoff := b, clients := (clients w)(c := s)\<rparr>))"

text \<open>The events of a list in order; an exception of a listener ends the run.\<close>

fun connection_run ::
  "platform \<Rightarrow> connection_event list \<Rightarrow> process \<Rightarrow> error option \<times> process" where
  "connection_run P [] w = (None, w)"
| "connection_run P (ev # evs) w =
     (case connection_step P ev w of
        (Some e, w') \<Rightarrow> (Some e, w')
      | (None, w') \<Rightarrow> connection_run P evs w')"

text \<open>
  A process at start: the backoff module as loaded, and every client as
  \<open>$initPubSubMQTT\<close> leaves it.
\<close>

definition start_process :: "platform \<Rightarrow> (nat \<Rightarrow> config) \<Rightarrow> process" where
  "start_process P cfgs =
     \<lparr>module_backoff = backoff_module,
      clients = (\<lambda>c. initPubSubMQTT P (cfgs c) (Some 1000)),
      configs = cfgs\<rparr>"

text \<open>
  How many \<open>reconnect\<close> events, of whatever client, a list of connection events has
  after its last \<open>connect\<close> event, of whatever client.
\<close>

fun count_reconnects :: "nat \<Rightarrow> connection_event list \<Rightarrow> nat" where
  "count_reconnects n [] = n"
| "count_reconnects n (Connect c # evs) = count_reconnects 0 evs"
| "count_reconnects n (Reconnect c r # evs) = count_reconnects (Suc n) evs"

definition reconnects_since_connect :: "connection_event list \<Rightarrow> nat" where
  "reconnects_since_connect evs = count_reconnects 0 evs"

section \<open>A small platform for examples\<close>

text \<open>
  The theorems below hold for every platform. To run the definitions on examples there
  is a finite one: it reads and writes the JSON documents of this table (any other text
  is no JSON for it), and matches topics as the spec describes.
\<close>

definition example_documents :: "(string \<times> jsval) list" where
  "example_documents =
     [(''{}'', JObj []),
      (''null'', JNull),
      (''{\"x\":1}'', JObj [(''x'', JNum 1)]),
      (''{\"ok\":true}'', JObj [(''ok'', JBool True)]),
      (''{\"uuid\":\"id-1\",\"timestamp\":1700000000000}'',
         JObj [(''uuid'', JStr ''id-1''), (''timestamp'', JNum 1700000000000)]),
      (''{\"uuid\":\"mine\",\"timestamp\":1700000000000}'',
         JObj [(''uuid'', JStr ''mine''), (''timestamp'', JNum 1700000000000)])]"

definition example_platform :: platform where
  "example_platform =
     \<lparr>JSON_parse = map_of example_documents,
      JSON_stringify = (\<lambda>v. case find (\<lambda>d. snd d = v) example_documents of
                                None \<Rightarrow> [] | Some d \<Rightarrow> fst d),
      mqtt_match = matches\<rparr>"

text \<open>
  A client of that platform with the default configuration, and on it the request
  \<open>request('echo', {x: 1}, {timeoutResponseAfter: 50})\<close>, for which \<open>makeGuid()\<close> gave
  \<open>k3-x1\<close>.
\<close>

definition example_gens :: gens where
  "example_gens = \<lparr>getId = JStr ''id-1'', genTimestamp = JNum 1700000000000\<rparr>"

definition example_client :: pubsub where
  "example_client = initPubSubMQTT example_platform DEFAULTS (Some 1000)"

definition example_request :: "(error + nat) \<times> pubsub" where
  "example_request =
     request example_platform DEFAULTS ''k3-x1'' example_gens ''echo'' (JObj [(''x'', JNum 1)])
       (no_options\<lparr>opt_timeoutResponseAfter := Some 50\<rparr>) example_client"


section \<open>The backoff sequence\<close>

lemma capped_growth:
  assumes "1 \<le> (f::nat)"
  shows "min (min e m * f * f ^ n) m = min (e * f ^ Suc n) m"
proof (cases "e \<le> m")
  case True
  then show ?thesis by (simp add: min_absorb1 mult.assoc)
next
  case False
  have pos: "1 \<le> f ^ Suc n" using assms by simp
  have a: "m \<le> m * f ^ Suc n" using pos by simp
  have "m \<le> e" using False by simp
  then have "m * f ^ Suc n \<le> e * f ^ Suc n" by (rule mult_le_mono1)
  with a have b: "m \<le> e * f ^ Suc n" by (rule le_trans)
  from False have "min e m = m" by simp
  then show ?thesis using a b by (simp add: mult.assoc)
qed

lemma whole_step:
  assumes "1 \<le> (f::nat)" and "e = 0 \<longrightarrow> i = 0"
  shows "min ((if min e m * f = 0 then i else min e m * f) * f ^ n) m = min (e * f ^ Suc n) m"
proof (cases "min e m * f = 0")
  case False
  then have "(if min e m * f = 0 then i else min e m * f) = min e m * f" by (rule if_not_P)
  then show ?thesis using capped_growth[OF assms(1), of e m n] by (simp only:)
next
  case True
  then have t: "(if min e m * f = 0 then i else min e m * f) = i" by (rule if_P)
  have "e = 0 \<or> m = 0" using True assms(1) by (auto simp: min_def split: if_splits)
  then show ?thesis
  proof
    assume "e = 0"
    then show ?thesis using assms(2) unfolding t by simp
  next
    assume "m = 0"
    then show ?thesis by simp
  qed
qed

lemma backoff_next_fields:
  "initialDelay (snd (backoff_next r b)) = initialDelay b"
  "maxDelay (snd (backoff_next r b)) = maxDelay b"
  "factor (snd (backoff_next r b)) = factor b"
  "randomizationFactor (snd (backoff_next r b)) = randomizationFactor b"
  by (simp_all add: backoff_next_def computeDelay_def Let_def)

lemma backoff_nexts_fields:
  "initialDelay (snd (backoff_nexts rs b)) = initialDelay b \<and>
   maxDelay (snd (backoff_nexts rs b)) = maxDelay b \<and>
   factor (snd (backoff_nexts rs b)) = factor b \<and>
   randomizationFactor (snd (backoff_nexts rs b)) = randomizationFactor b"
proof (induction rs arbitrary: b)
  case Nil
  show ?case by simp
next
  case (Cons r rs)
  show ?case using Cons.IH[of "snd (backoff_next r b)"]
    by (simp add: split_def Let_def backoff_next_fields)
qed

lemma backoff_next_plain:
  "randomizationFactor b = 0 \<Longrightarrow>
   backoff_next r b =
     (round (min (nextOrInitial b) (maxDelay b)),
      b\<lparr>nextBackoffDelay := Some (min (nextOrInitial b) (maxDelay b) * factor b),
        backoffDelay := Some (min (nextOrInitial b) (maxDelay b)),
        delay := Some (round (min (nextOrInitial b) (maxDelay b)))\<rparr>)"
  by (simp add: backoff_next_def computeDelay_def Let_def)

lemma backoff_next_whole:
  assumes "randomizationFactor b = 0" and "maxDelay b = real m" and "factor b = real f"
    and "initialDelay b = real i" and "nextOrInitial b = real e"
  shows "fst (backoff_next r b) = int (min e m)"
    and "nextOrInitial (snd (backoff_next r b))
           = real (if min e m * f = 0 then i else min e m * f)"
proof -
  have mn: "min (real e) (real m) = real (min e m)" by simp
  show "fst (backoff_next r b) = int (min e m)"
    using assms by (simp add: backoff_next_plain mn del: of_nat_min)
  have nb: "nextBackoffDelay (snd (backoff_next r b)) = Some (real (min e m) * real f)"
    using assms by (simp add: backoff_next_plain mn del: of_nat_min)
  have ini: "initialDelay (snd (backoff_next r b)) = real i"
    using assms(4) by (simp add: backoff_next_fields)
  have "nextOrInitial (snd (backoff_next r b))
      = (if real (min e m) * real f = 0 then real i else real (min e m) * real f)"
    by (simp only: nextOrInitial_def nb ini option.case)
  also have "\<dots> = real (if min e m * f = 0 then i else min e m * f)"
  proof (cases "min e m * f = 0")
    case True
    then have "real (min e m) * real f = 0" by (metis of_nat_mult of_nat_0)
    then show ?thesis using True by (simp only: if_P)
  next
    case False
    then have "real (min e m) * real f \<noteq> 0" by (metis of_nat_mult of_nat_eq_0_iff)
    then show ?thesis using False by (simp only: if_not_P of_nat_mult if_False)
  qed
  finally show "nextOrInitial (snd (backoff_next r b))
           = real (if min e m * f = 0 then i else min e m * f)" .
qed

lemma backoff_nexts_delays:
  "randomizationFactor b = 0 \<Longrightarrow> maxDelay b = real m \<Longrightarrow> factor b = real f \<Longrightarrow>
   initialDelay b = real i \<Longrightarrow> nextOrInitial b = real e \<Longrightarrow> e = 0 \<longrightarrow> i = 0 \<Longrightarrow> 1 \<le> f \<Longrightarrow>
   fst (backoff_nexts rs b) = map (\<lambda>n. int (min (e * f ^ n) m)) [0..<length rs]"
proof (induction rs arbitrary: b e)
  case Nil
  then show ?case by simp
next
  case (Cons r rs)
  let ?b1 = "snd (backoff_next r b)"
  let ?e1 = "if min e m * f = 0 then i else min e m * f"
  note nw = backoff_next_whole[OF Cons.prems(1-5), of r]
  have e1: "?e1 = 0 \<longrightarrow> i = 0"
    by (cases "min e m * f = 0") (simp_all only: if_P if_not_P if_False, blast+)
  have ih: "fst (backoff_nexts rs ?b1) = map (\<lambda>n. int (min (?e1 * f ^ n) m)) [0..<length rs]"
    using Cons.IH[of ?b1 ?e1] Cons.prems nw(2) e1
    by (simp only: backoff_next_fields)
  have st: "min (?e1 * f ^ n) m = min (e * f ^ Suc n) m" for n
    by (rule whole_step[OF Cons.prems(7) Cons.prems(6)])
  have "fst (backoff_nexts (r # rs) b) = fst (backoff_next r b) # fst (backoff_nexts rs ?b1)"
    by (simp add: split_def Let_def)
  also have "\<dots> = int (min e m) #
      map (\<lambda>n. int (min (e * f ^ Suc n) m)) [0..<length rs]"
    by (simp only: nw(1) ih st)
  also have "\<dots> = map (\<lambda>n. int (min (e * f ^ n) m)) [0..<length (r # rs)]"
    by (simp add: map_upt_Suc del: upt_Suc)
  finally show ?case .
qed

lemma nextOrInitial_fresh: "nextOrInitial (backoff_object i m rf f) = i"
  by (simp add: nextOrInitial_def backoff_object_def)

lemma nextOrInitial_reset: "nextOrInitial (backoff_reset b) = initialDelay b"
  by (simp add: nextOrInitial_def backoff_reset_def)

lemma backoff_example_delays:
  "fst (backoff_nexts [r0, r1, r2, r3, r4] (backoff_object 100 1000 0 3))
     = [100, 300, 900, 1000, 1000]"
  by (simp add: backoff_next_plain nextOrInitial_def backoff_object_def)

lemma backoff_example_reset:
  "fst (backoff_next r (backoff_reset (snd (backoff_nexts rs (backoff_object 100 1000 0 3)))))
     = 100"
proof -
  let ?b = "snd (backoff_nexts rs (backoff_object 100 1000 0 3))"
  have "initialDelay ?b = 100" "maxDelay ?b = 1000" "randomizationFactor ?b = 0"
    using backoff_nexts_fields[of rs "backoff_object 100 1000 0 3"]
    by (simp_all add: backoff_object_def)
  then have "initialDelay ?b = 100" "maxDelay (backoff_reset ?b) = 1000"
    "randomizationFactor (backoff_reset ?b) = 0"
    by (simp_all add: backoff_reset_def)
  then show ?thesis
    by (simp add: backoff_next_plain nextOrInitial_reset)
qed

lemma backoff_fresh_delays:
  assumes "1 \<le> f"
  shows "fst (backoff_nexts rs (backoff_object (real i) (real m) 0 (real f)))
           = map (\<lambda>n. int (min (i * f ^ n) m)) [0..<length rs]"
proof -
  let ?b = "backoff_object (real i) (real m) 0 (real f)"
  have "randomizationFactor ?b = 0" "maxDelay ?b = real m" "factor ?b = real f"
    "initialDelay ?b = real i" "nextOrInitial ?b = real i"
    by (simp_all add: backoff_object_def nextOrInitial_def)
  then show ?thesis using backoff_nexts_delays[of ?b m f i i rs] assms by simp
qed

lemma backoff_reset_delays:
  assumes "1 \<le> f" and "initialDelay b = real i" and "maxDelay b = real m"
    and "factor b = real f" and "randomizationFactor b = 0"
  shows "fst (backoff_nexts rs (backoff_reset b))
           = map (\<lambda>n. int (min (i * f ^ n) m)) [0..<length rs]"
proof -
  have "randomizationFactor (backoff_reset b) = 0" "maxDelay (backoff_reset b) = real m"
    "factor (backoff_reset b) = real f" "initialDelay (backoff_reset b) = real i"
    using assms by (simp_all add: backoff_reset_def)
  moreover have "nextOrInitial (backoff_reset b) = real i"
    using assms by (simp add: nextOrInitial_reset)
  moreover have "i = 0 \<longrightarrow> i = 0" by simp
  ultimately show ?thesis using assms(1) by (rule backoff_nexts_delays)
qed

text \<open>
  C5 (as amended). With initialDelay 100, factor 3, maxDelay 1000 and no randomization,
  the calls of \<open>next\<close> return 100, 300, 900, 1000, 1000; after \<open>reset\<close> (whatever calls
  came before) the next call returns 100 again. In general, without randomization, when
  initialDelay, maxDelay and factor are whole numbers, not negative, and the factor is at
  least 1, the
  n-th call (from 0) on the object as loaded, and likewise the n-th call after a
  \<open>reset\<close>, returns \<open>min (initialDelay * factor ^ n) maxDelay\<close>, whatever
  \<open>Math.random()\<close> yields.
\<close>

theorem backoff_sequence:
  "fst (backoff_nexts [r0, r1, r2, r3, r4] (backoff_object 100 1000 0 3))
     = [100, 300, 900, 1000, 1000]
   \<and> fst (backoff_next r (backoff_reset (snd (backoff_nexts rs (backoff_object 100 1000 0 3)))))
     = 100
   \<and> (1 \<le> f \<longrightarrow>
        fst (backoff_nexts rs (backoff_object (real i) (real m) 0 (real f)))
          = map (\<lambda>n. int (min (i * f ^ n) m)) [0..<length rs])
   \<and> (1 \<le> f \<and> initialDelay b = real i \<and> maxDelay b = real m \<and> factor b = real f
        \<and> randomizationFactor b = 0 \<longrightarrow>
        fst (backoff_nexts rs (backoff_reset b))
          = map (\<lambda>n. int (min (i * f ^ n) m)) [0..<length rs])"
  using backoff_example_delays[of r0 r1 r2 r3 r4] backoff_example_reset[of r rs]
    backoff_fresh_delays[of f rs i m] backoff_reset_delays[of f b i m rs]
  by blast

theorem backoff_sequence_witness:
  "fst (backoff_nexts [0, 0, 0, 0, 0, 0] (backoff_object 100 1000 0 3))
     = [100, 300, 900, 1000, 1000, 1000]
   \<and> fst (backoff_nexts [1 / 2, 1 / 4, 0]
        (backoff_reset (snd (backoff_nexts [0, 0] backoff_module))))
     = [100, 300, 900]"
proof -
  let ?b = "snd (backoff_nexts [0, 0] backoff_module)"
  have fields: "factor ?b = real 3" "randomizationFactor ?b = 0" "initialDelay ?b = real 100"
    "maxDelay ?b = real 30000"
    using backoff_nexts_fields[of "[0, 0]" backoff_module]
    by (simp_all add: backoff_module_def backoff_object_def)
  have o: "backoff_object 100 1000 0 3 = backoff_object (real 100) (real 1000) 0 (real 3)"
    by simp
  have a: "fst (backoff_nexts [0, 0, 0, 0, 0, 0] (backoff_object 100 1000 0 3))
      = map (\<lambda>n. int (min (100 * 3 ^ n) 1000)) [0..<length [0::real, 0, 0, 0, 0, 0]]"
    using backoff_sequence[where rs = "[0, 0, 0, 0, 0, 0]" and f = 3 and i = 100 and m = 1000]
    unfolding o by (simp del: backoff_nexts.simps of_nat_numeral)
  have b: "fst (backoff_nexts [1 / 2, 1 / 4, 0] (backoff_reset ?b))
      = map (\<lambda>n. int (min (100 * 3 ^ n) 30000)) [0..<length [1 / 2, 1 / 4, 0::real]]"
    using backoff_sequence[where rs = "[1 / 2, 1 / 4, 0]" and b = ?b and f = 3 and i = 100
        and m = 30000] fields
    by (simp del: backoff_nexts.simps of_nat_numeral)
  have ra: "map (\<lambda>n. int (min (100 * 3 ^ n) 1000)) [0..<length [0::real, 0, 0, 0, 0, 0]]
      = [100, 300, 900, 1000, 1000, 1000]"
    by simp
  have rb: "map (\<lambda>n. int (min (100 * 3 ^ n) 30000)) [0..<length [1 / 2, 1 / 4, 0::real]]
      = [100, 300, 900]"
    by simp
  show ?thesis
    using a b ra rb by (simp only:)
qed

text \<open>
  The counterexample to C5 as stated. With factor 0 the product is 0, which
  \<open>computeDelay\<close> takes for unset: the calls return 100, 100, 100 where the closed form
  gives 100, 0, 0. With factor 3/2 the fourth call returns the rounded 338 where the
  closed form gives 337.5.
\<close>

theorem backoff_closed_form_fails:
  "fst (backoff_nexts [0, 0, 0] (backoff_object 100 1000 0 0)) = [100, 100, 100]
   \<and> map (\<lambda>n. min (100 * 0 ^ n) (1000::real)) [0, 1, 2] = [100, 0, 0]
   \<and> fst (backoff_nexts [0, 0, 0, 0] (backoff_object 100 1000 0 (3 / 2))) = [100, 150, 225, 338]
   \<and> min (100 * (3 / 2) ^ 3) (1000::real) = 675 / 2"
  by (simp add: backoff_next_def computeDelay_def nextOrInitial_def backoff_object_def Let_def
      round_def power3_eq_cube)

section \<open>Topic matching: the examples and the general rule\<close>

lemma matches_segments_plain:
  "''#'' \<notin> set ps \<Longrightarrow> matches_segments ps ts = list_all2 segment_ok ps ts"
proof (induction ps arbitrary: ts)
  case Nil
  then show ?case by (cases ts) simp_all
next
  case (Cons p ps)
  then show ?case by (cases ts) (auto simp: segment_ok_def)
qed

lemma matches_segments_hash:
  "''#'' \<notin> set ps \<Longrightarrow>
   matches_segments (ps @ [''#'']) ts =
     (length ps \<le> length ts \<and> list_all2 segment_ok ps (take (length ps) ts))"
proof (induction ps arbitrary: ts)
  case Nil
  then show ?case by simp
next
  case (Cons p ps)
  then show ?case by (cases ts) (auto simp: segment_ok_def)
qed

lemma matches_example_1: "matches ''a/+/c'' ''a/b/c''"
  by (simp add: matches_def segments_def)
lemma matches_example_2: "\<not> matches ''a/+/c'' ''a/b/b/c''"
  by (simp add: matches_def segments_def)
lemma matches_example_3: "matches ''a/#'' ''a/b/c''"
  by (simp add: matches_def segments_def)
lemma matches_example_4: "matches ''a/#'' ''a''"
  by (simp add: matches_def segments_def)
lemma matches_example_5: "\<not> matches ''a/+'' ''a''"
  by (simp add: matches_def segments_def)

text \<open>
  C4. The five examples of the spec hold. In general, a pattern without \<open>#\<close> matches a
  topic exactly when both have the same number of segments and every pattern segment is
  \<open>+\<close> or equals the topic's segment at its place (so \<open>+\<close> stands for exactly one
  segment), and a pattern whose last segment is its only \<open>#\<close> matches exactly when the
  segments before the \<open>#\<close> match the topic's first segments one to one, whatever follows
  (zero or more segments).
\<close>

theorem topic_matching:
  "matches ''a/+/c'' ''a/b/c'' \<and> \<not> matches ''a/+/c'' ''a/b/b/c''
   \<and> matches ''a/#'' ''a/b/c'' \<and> matches ''a/#'' ''a'' \<and> \<not> matches ''a/+'' ''a''
   \<and> (''#'' \<notin> set (segments pattern) \<longrightarrow>
        matches pattern topic =
          (length (segments pattern) = length (segments topic)
           \<and> list_all2 segment_ok (segments pattern) (segments topic)))
   \<and> (segments pattern = ps @ [''#''] \<and> ''#'' \<notin> set ps \<longrightarrow>
        matches pattern topic =
          (length ps \<le> length (segments topic)
           \<and> list_all2 segment_ok ps (take (length ps) (segments topic))))
   \<and> segment_ok ''+'' seg \<and> segment_ok seg seg
   \<and> (lit \<noteq> ''+'' \<longrightarrow> segment_ok lit seg = (lit = seg))"
proof -
  have plain: "''#'' \<notin> set (segments pattern) \<longrightarrow>
        matches pattern topic =
          (length (segments pattern) = length (segments topic)
           \<and> list_all2 segment_ok (segments pattern) (segments topic))"
    using matches_segments_plain[of "segments pattern" "segments topic"]
    by (auto simp: matches_def dest: list_all2_lengthD)
  have hash: "segments pattern = ps @ [''#''] \<and> ''#'' \<notin> set ps \<longrightarrow>
        matches pattern topic =
          (length ps \<le> length (segments topic)
           \<and> list_all2 segment_ok ps (take (length ps) (segments topic)))"
    using matches_segments_hash[of ps "segments topic"] by (simp add: matches_def)
  have seg: "segment_ok ''+'' seg \<and> segment_ok seg seg
     \<and> (lit \<noteq> ''+'' \<longrightarrow> segment_ok lit seg = (lit = seg))"
    by (simp add: segment_ok_def)
  show ?thesis using matches_example_1 matches_example_2 matches_example_3 matches_example_4
      matches_example_5 plain hash seg
    by blast
qed

theorem topic_matching_witness:
  "matches ''svc/+/ping'' ''svc/42/ping'' \<and> \<not> matches ''svc/+/ping'' ''svc/42/43/ping''
   \<and> matches ''svc/+/#'' ''svc/42/a/b'' \<and> \<not> matches ''svc/+/#'' ''svc''
   \<and> \<not> segment_ok ''svc'' ''srv''"
proof -
  have s1: "segments ''svc/+/ping'' = [''svc'', ''+'', ''ping'']"
    and s2: "segments ''svc/42/ping'' = [''svc'', ''42'', ''ping'']"
    and s3: "segments ''svc/42/43/ping'' = [''svc'', ''42'', ''43'', ''ping'']"
    and s4: "segments ''svc/+/#'' = [''svc'', ''+''] @ [''#'']"
    and s5: "segments ''svc/42/a/b'' = [''svc'', ''42'', ''a'', ''b'']"
    and s6: "segments ''svc'' = [''svc'']"
    by (simp_all add: segments_def)
  have a: "matches ''svc/+/ping'' ''svc/42/ping''"
    using topic_matching[where pattern = "''svc/+/ping''" and topic = "''svc/42/ping''"]
    by (simp add: s1 s2 segment_ok_def)
  have b: "\<not> matches ''svc/+/ping'' ''svc/42/43/ping''"
    using topic_matching[where pattern = "''svc/+/ping''" and topic = "''svc/42/43/ping''"]
    by (simp add: s1 s3 segment_ok_def)
  have c: "matches ''svc/+/#'' ''svc/42/a/b''"
    using topic_matching[where pattern = "''svc/+/#''" and topic = "''svc/42/a/b''"
        and ps = "[''svc'', ''+'']"] s4
    by (simp add: s5 segment_ok_def)
  have d: "\<not> matches ''svc/+/#'' ''svc''"
    using topic_matching[where pattern = "''svc/+/#''" and topic = "''svc''"
        and ps = "[''svc'', ''+'']"] s4
    by (simp add: s6 segment_ok_def)
  have e: "\<not> segment_ok ''svc'' ''srv''"
    using topic_matching[where lit = "''svc''" and seg = "''srv''"] by simp
  show ?thesis using a b c d e by blast
qed

section \<open>Response middleware\<close>

lemma reduce_middleware_pure:
  "reduce_middleware (map (\<lambda>f r d e. Inr (f r d e)) fs) data err r0
     = Inr (foldl (\<lambda>r f. f r data err) r0 fs)"
  by (induction fs arbitrary: r0) simp_all

lemma registered_middleware:
  "responseMiddleware (foldl (\<lambda>s m. addResponseMiddleware (Some m) s) s ms)
     = (if ms = [] then responseMiddleware s
        else Some ((case responseMiddleware s of None \<Rightarrow> [] | Some l \<Rightarrow> l) @ ms))"
proof (induction ms arbitrary: s)
  case Nil
  show ?case by simp
next
  case (Cons m ms)
  show ?case using Cons.IH[of "addResponseMiddleware (Some m) s"]
    by (simp add: addResponseMiddleware_def split: option.splits)
qed

lemma init_responseMiddleware: "responseMiddleware (initPubSubMQTT P cfg co) = None"
  by (simp add: initPubSubMQTT_def addTransform_def Let_def split: option.splits)

text \<open>
  C8. On a client on which the middlewares \<open>ms\<close> were registered in this order,
  \<open>applyResponseMiddleware(data, error)\<close> returns \<open>data\<close> unchanged when none is
  registered (also after an \<open>add\<close> of something that is no function), and otherwise the
  reduction over the middlewares in registration order that starts from the empty object,
  each middleware receiving the response so far, the data and the error: the left fold
  when no middleware throws.
\<close>

theorem middleware_reduction:
  "applyResponseMiddleware data err
      (foldl (\<lambda>s m. addResponseMiddleware (Some m) s) (initPubSubMQTT P cfg co) ms)
     = (if ms = [] then Inr data else reduce_middleware ms data err (JObj []))
   \<and> applyResponseMiddleware data err
      (foldl (\<lambda>s m. addResponseMiddleware (Some m) s) (initPubSubMQTT P cfg co)
         (map (\<lambda>f r d e. Inr (f r d e)) fs))
     = (if fs = [] then Inr data else Inr (foldl (\<lambda>r f. f r data err) (JObj []) fs))
   \<and> applyResponseMiddleware data err (addResponseMiddleware None (initPubSubMQTT P cfg co))
     = Inr data"
proof -
  have a: "applyResponseMiddleware data err
      (foldl (\<lambda>s m. addResponseMiddleware (Some m) s) (initPubSubMQTT P cfg co) ms)
     = (if ms = [] then Inr data else reduce_middleware ms data err (JObj []))" for ms
    by (simp add: applyResponseMiddleware_def registered_middleware init_responseMiddleware)
  have c: "applyResponseMiddleware data err (addResponseMiddleware None (initPubSubMQTT P cfg co))
     = Inr data"
    by (simp add: applyResponseMiddleware_def addResponseMiddleware_def init_responseMiddleware)
  show ?thesis
    using a[of ms] a[of "map (\<lambda>f r d e. Inr (f r d e)) fs"] c
    by (simp add: reduce_middleware_pure)
qed

theorem middleware_reduction_witness:
  "applyResponseMiddleware (JObj [(''x'', JNum 1)]) JNull
      (foldl (\<lambda>s m. addResponseMiddleware (Some m) s)
         (initPubSubMQTT example_platform DEFAULTS None)
         [\<lambda>r d e. set_prop r ''a'' (JNum 1), \<lambda>r d e. set_prop r ''b'' (JNum 2)])
     = Inr (JObj [(''a'', JNum 1), (''b'', JNum 2)])"
  using middleware_reduction[of "JObj [(''x'', JNum 1)]" JNull example_platform DEFAULTS None
      "[\<lambda>r d e. set_prop r ''a'' (JNum 1), \<lambda>r d e. set_prop r ''b'' (JNum 2)]"]
  by simp


section \<open>Payload preparation in request\<close>

text \<open>
  C10. For string data that is not empty and that \<open>JSON.parse\<close> rejects, \<open>request\<close>
  throws the SyntaxError to its caller: no promise is made, nothing is subscribed or
  published, the client is unchanged.
\<close>

theorem request_invalid_json_throws:
  "text \<noteq> [] \<Longrightarrow> JSON_parse P text = None \<Longrightarrow>
   request P cfg rndm g topic (JStr text) opts s = (Inl SyntaxError, s)"
  by (simp add: request_def appendToPayload_def Let_def)

theorem request_invalid_json_throws_witness:
  "request example_platform DEFAULTS ''k3-x1'' \<lparr>getId = JStr ''id-1'', genTimestamp = JNum 1\<rparr>
      ''echo'' (JStr ''not json'') no_options (initPubSubMQTT example_platform DEFAULTS None)
     = (Inl SyntaxError, initPubSubMQTT example_platform DEFAULTS None)"
  using request_invalid_json_throws[of "''not json''" example_platform DEFAULTS "''k3-x1''"
      "\<lparr>getId = JStr ''id-1'', genTimestamp = JNum 1\<rparr>" "''echo''" no_options
      "initPubSubMQTT example_platform DEFAULTS None"]
  by (simp add: example_platform_def example_documents_def)

section \<open>The merged payload of a request\<close>

lemma map_of_assign_fold:
  "distinct (map fst kvs) \<Longrightarrow>
   map_of (foldl (\<lambda>t (k, v). AList.update k v t) target kvs) = map_of target ++ map_of kvs"
proof (induction kvs arbitrary: target)
  case Nil
  show ?case by simp
next
  case (Cons kv kvs)
  obtain k v where kv: "kv = (k, v)" by (cases kv)
  have none: "map_of kvs k = None"
    using Cons.prems by (simp add: kv map_of_eq_None_iff)
  have "map_of (foldl (\<lambda>t (k, v). AList.update k v t) target (kv # kvs))
      = map_of (AList.update k v target) ++ map_of kvs"
    using Cons.IH[of "AList.update k v target"] Cons.prems
    by (simp add: kv)
  also have "\<dots> = (map_of target)(k \<mapsto> v) ++ map_of kvs"
    by (simp only: update_conv')
  also have "\<dots> = map_of target ++ map_of (kv # kvs)"
    using none by (auto simp: kv map_add_def fun_eq_iff split: option.splits)
  finally show ?case .
qed

lemma map_of_gextend_two:
  "distinct (map fst kvs) \<Longrightarrow>
   map_of (gextend [] [JObj [(tk, x)], JObj kvs]) = [tk \<mapsto> x] ++ map_of kvs"
  by (simp add: gextend_def map_of_assign_fold)

lemma appendToPayload_object:
  "appendToPayload P (JObj kvs) (JObj extra) = Inr (JObj (gextend [] [JObj extra, JObj kvs]))"
  by (simp add: appendToPayload_def)

lemma appendToPayload_json:
  "text \<noteq> [] \<Longrightarrow> JSON_parse P text = Some v \<Longrightarrow>
   appendToPayload P (JStr text) (JObj extra) = Inr (JObj (gextend [] [JObj extra, v]))"
  by (simp add: appendToPayload_def)

lemma request_prepared:
  "appendToPayload P (if data = JUndefined then JStr [] else data)
      (JObj [(topicKey (extend_options (responseOptions cfg) opts), JStr (topic @ ''/res/'' @ rndm))])
     = Inr payload \<Longrightarrow>
   request P cfg rndm g topic data opts s =
     (Inr (fst (request_executor g topic payload (extend_options (responseOptions cfg) opts)
                 (topic @ ''/res/'' @ rndm) s)),
      snd (request_executor g topic payload (extend_options (responseOptions cfg) opts)
                 (topic @ ''/res/'' @ rndm) s))"
  by (simp add: request_def Let_def split_def)

text \<open>
  C9. For data that is an object, or a JSON string that decodes to one, \<open>request\<close> hands
  to its executor the merge of the injected response topic and the data: every field of
  the caller's data is in the merged payload with its value (so a \<open>topicKey\<close> field of
  the caller wins), the response topic is added under \<open>topicKey\<close> only when the data
  has no such field, and nothing else is added.
\<close>

theorem request_payload_merge:
  assumes keys: "distinct (map fst kvs)"
    and data: "data = JObj kvs \<or> (data = JStr doc \<and> doc \<noteq> [] \<and> JSON_parse P doc = Some (JObj kvs))"
    and options: "options = extend_options (responseOptions cfg) opts"
    and rt: "responseTopic = topic @ ''/res/'' @ rndm"
    and merged: "merged = gextend [] [JObj [(topicKey options, JStr responseTopic)], JObj kvs]"
  shows "appendToPayload P data (JObj [(topicKey options, JStr responseTopic)]) = Inr (JObj merged)
    \<and> request P cfg rndm g topic data opts s =
        (Inr (fst (request_executor g topic (JObj merged) options responseTopic s)),
         snd (request_executor g topic (JObj merged) options responseTopic s))
    \<and> (\<forall>k v. map_of kvs k = Some v \<longrightarrow> map_of merged k = Some v)
    \<and> (map_of kvs (topicKey options) = None \<longrightarrow>
          map_of merged (topicKey options) = Some (JStr responseTopic))
    \<and> (\<forall>k. k \<noteq> topicKey options \<longrightarrow> map_of kvs k = None \<longrightarrow> map_of merged k = None)"
proof -
  have ap: "appendToPayload P data (JObj [(topicKey options, JStr responseTopic)]) = Inr (JObj merged)"
    using data by (auto simp: merged appendToPayload_object appendToPayload_json)
  have und: "(if data = JUndefined then JStr [] else data) = data"
    using data by auto
  have rq: "request P cfg rndm g topic data opts s =
        (Inr (fst (request_executor g topic (JObj merged) options responseTopic s)),
         snd (request_executor g topic (JObj merged) options responseTopic s))"
    using request_prepared[of P data cfg opts topic rndm "JObj merged" g s] ap
    by (simp add: und options rt)
  have m: "map_of merged = [topicKey options \<mapsto> JStr responseTopic] ++ map_of kvs"
    using keys by (simp add: merged map_of_gextend_two)
  show ?thesis using ap rq by (auto simp: m map_add_def split: option.splits)
qed

theorem request_payload_merge_witness:
  "map_of (gextend [] [JObj [(''respondTo'', JStr ''echo/res/k3-x1'')],
                       JObj [(''x'', JNum 1), (''respondTo'', JStr ''mine'')]]) ''respondTo''
     = Some (JStr ''mine'')
   \<and> map_of (gextend [] [JObj [(''respondTo'', JStr ''echo/res/k3-x1'')],
                       JObj [(''x'', JNum 1), (''respondTo'', JStr ''mine'')]]) ''x''
     = Some (JNum 1)
   \<and> appendToPayload example_platform (JStr ''{\"x\":1}'')
        (JObj [(''respondTo'', JStr ''echo/res/k3-x1'')])
     = Inr (JObj (gextend [] [JObj [(''respondTo'', JStr ''echo/res/k3-x1'')],
                              JObj [(''x'', JNum 1)]]))
   \<and> map_of (gextend [] [JObj [(''respondTo'', JStr ''echo/res/k3-x1'')],
                       JObj [(''x'', JNum 1)]]) ''respondTo''
     = Some (JStr ''echo/res/k3-x1'')"
proof -
  have tk: "topicKey (extend_options (responseOptions DEFAULTS) no_options) = ''respondTo''"
    by (simp add: extend_options_def DEFAULTS_def defaultResponseOptions_def no_options_def)
  have p: "JSON_parse example_platform ''{\"x\":1}'' = Some (JObj [(''x'', JNum 1)])"
    by (simp add: example_platform_def example_documents_def)
  have a: "map_of (gextend [] [JObj [(''respondTo'', JStr ''echo/res/k3-x1'')],
                       JObj [(''x'', JNum 1), (''respondTo'', JStr ''mine'')]]) ''respondTo''
     = Some (JStr ''mine'')
   \<and> map_of (gextend [] [JObj [(''respondTo'', JStr ''echo/res/k3-x1'')],
                       JObj [(''x'', JNum 1), (''respondTo'', JStr ''mine'')]]) ''x''
     = Some (JNum 1)"
    using request_payload_merge[where kvs = "[(''x'', JNum 1), (''respondTo'', JStr ''mine'')]"
        and data = "JObj [(''x'', JNum 1), (''respondTo'', JStr ''mine'')]"
        and cfg = DEFAULTS and opts = no_options and topic = "''echo''" and rndm = "''k3-x1''"
        and P = example_platform, OF _ _ refl refl refl]
    by (simp add: tk)
  have b: "appendToPayload example_platform (JStr ''{\"x\":1}'')
        (JObj [(''respondTo'', JStr ''echo/res/k3-x1'')])
     = Inr (JObj (gextend [] [JObj [(''respondTo'', JStr ''echo/res/k3-x1'')],
                              JObj [(''x'', JNum 1)]]))
   \<and> map_of (gextend [] [JObj [(''respondTo'', JStr ''echo/res/k3-x1'')],
                       JObj [(''x'', JNum 1)]]) ''respondTo''
     = Some (JStr ''echo/res/k3-x1'')"
    using request_payload_merge[where kvs = "[(''x'', JNum 1)]"
        and data = "JStr ''{\"x\":1}''" and doc = "''{\"x\":1}''"
        and cfg = DEFAULTS and opts = no_options and topic = "''echo''" and rndm = "''k3-x1''"
        and P = example_platform, OF _ _ refl refl refl] p
    by (simp add: tk)
  show ?thesis using a b by blast
qed

section \<open>The default transform pipeline\<close>

lemma init_transforms:
  "transforms (initPubSubMQTT P cfg co) =
     Some ((case ensure_uuid cfg of None \<Rightarrow> [] | Some f \<Rightarrow> [f]) @
           (case ensure_timestamp cfg of None \<Rightarrow> [] | Some f \<Rightarrow> [f]) @ [serialize P])"
  by (simp add: initPubSubMQTT_def addTransform_def Let_def split: option.splits)

lemma default_transforms_object:
  "applyTransforms g (JObj kvs) (initPubSubMQTT P DEFAULTS co) =
     Inr (JStr (JSON_stringify P (JObj
       (let kvs1 = (if truthy (case map_of kvs ''uuid'' of None \<Rightarrow> JUndefined | Some v \<Rightarrow> v)
                    then kvs else AList.update ''uuid'' (getId g) kvs)
        in if truthy (case map_of kvs1 ''timestamp'' of None \<Rightarrow> JUndefined | Some v \<Rightarrow> v)
           then kvs1 else AList.update ''timestamp'' (genTimestamp g) kvs1))))"
  by (simp add: applyTransforms_def init_transforms ensure_uuid_def ensure_timestamp_def
      DEFAULTS_def serialize_def Let_def)

lemma publish_published:
  "applyTransforms g data s = Inr d \<Longrightarrow> data \<noteq> JUndefined \<Longrightarrow>
   publish g topic data s = (None, s\<lparr>published := published s @ [(topic, d)]\<rparr>)"
  by (simp add: publish_def)

text \<open>
  C7 (as amended). On a client created with the default configuration the transforms
  are, in this order, ensure-uuid, ensure-timestamp and serialize. When the generators
  yield a non-empty string and a number, publishing \<open>{}\<close> hands to the transport the
  serialization of the object with these two fields (which a reader that inverts the
  serialization decodes to that object). For every payload object whose uuid field is
  truthy, the pipeline serializes an object whose uuid field has the caller's value.
\<close>

theorem default_pipeline:
  assumes id: "getId g = JStr u" "u \<noteq> []" and ts: "genTimestamp g = JNum t"
    and fresh: "fresh = initPubSubMQTT P DEFAULTS co"
    and obj: "obj = JObj [(''uuid'', JStr u), (''timestamp'', JNum t)]"
  shows "(\<exists>tx1 tx2. ensure_uuid DEFAULTS = Some tx1 \<and> ensure_timestamp DEFAULTS = Some tx2
            \<and> transforms fresh = Some [tx1, tx2, serialize P])
    \<and> publish g topic (JObj []) fresh
        = (None, fresh\<lparr>published := published fresh @ [(topic, JStr (JSON_stringify P obj))]\<rparr>)
    \<and> (JSON_parse P (JSON_stringify P obj) = Some obj \<longrightarrow>
          message_payload P (JSON_stringify P obj) = obj)
    \<and> get_prop obj ''uuid'' = Inr (JStr u) \<and> get_prop obj ''timestamp'' = Inr (JNum t)
    \<and> (map_of kvs ''uuid'' = Some v \<and> truthy v \<longrightarrow>
          (\<exists>kvs'. applyTransforms g (JObj kvs) fresh = Inr (JStr (JSON_stringify P (JObj kvs')))
             \<and> get_prop (JObj kvs') ''uuid'' = Inr v))"
proof -
  have a: "\<exists>tx1 tx2. ensure_uuid DEFAULTS = Some tx1 \<and> ensure_timestamp DEFAULTS = Some tx2
            \<and> transforms fresh = Some [tx1, tx2, serialize P]"
    by (simp add: fresh init_transforms ensure_uuid_def ensure_timestamp_def DEFAULTS_def)
  have "applyTransforms g (JObj []) fresh = Inr (JStr (JSON_stringify P obj))"
    using id ts by (simp add: fresh obj default_transforms_object)
  then have b: "publish g topic (JObj []) fresh
        = (None, fresh\<lparr>published := published fresh @ [(topic, JStr (JSON_stringify P obj))]\<rparr>)"
    by (simp add: publish_published)
  have c: "JSON_parse P (JSON_stringify P obj) = Some obj \<longrightarrow>
          message_payload P (JSON_stringify P obj) = obj"
    by (simp add: message_payload_def)
  have d: "get_prop obj ''uuid'' = Inr (JStr u) \<and> get_prop obj ''timestamp'' = Inr (JNum t)"
    by (simp add: obj)
  have e: "map_of kvs ''uuid'' = Some v \<and> truthy v \<longrightarrow>
          (\<exists>kvs'. applyTransforms g (JObj kvs) fresh = Inr (JStr (JSON_stringify P (JObj kvs')))
             \<and> get_prop (JObj kvs') ''uuid'' = Inr v)"
    by (auto simp: fresh default_transforms_object Let_def update_conv')
  show ?thesis using a b c d e by blast
qed

lemma example_parse_1:
  "JSON_parse example_platform ''{\"uuid\":\"id-1\",\"timestamp\":1700000000000}''
     = Some (JObj [(''uuid'', JStr ''id-1''), (''timestamp'', JNum 1700000000000)])"
  by (simp add: example_platform_def example_documents_def)

lemma example_stringify_1:
  "JSON_stringify example_platform
     (JObj [(''uuid'', JStr ''id-1''), (''timestamp'', JNum 1700000000000)])
     = ''{\"uuid\":\"id-1\",\"timestamp\":1700000000000}''"
  by (simp add: example_platform_def example_documents_def)

lemma example_stringify_2:
  "JSON_stringify example_platform
     (JObj [(''uuid'', JStr ''mine''), (''timestamp'', JNum 1700000000000)])
     = ''{\"uuid\":\"mine\",\"timestamp\":1700000000000}''"
  by (simp add: example_platform_def example_documents_def)

theorem default_pipeline_witness:
  "published (snd (publish \<lparr>getId = JStr ''id-1'', genTimestamp = JNum 1700000000000\<rparr>
       ''svc/up'' (JObj []) (initPubSubMQTT example_platform DEFAULTS None)))
     = [(''svc/up'', JStr ''{\"uuid\":\"id-1\",\"timestamp\":1700000000000}'')]
   \<and> message_payload example_platform ''{\"uuid\":\"id-1\",\"timestamp\":1700000000000}''
     = JObj [(''uuid'', JStr ''id-1''), (''timestamp'', JNum 1700000000000)]
   \<and> applyTransforms \<lparr>getId = JStr ''id-1'', genTimestamp = JNum 1700000000000\<rparr>
       (JObj [(''uuid'', JStr ''mine'')]) (initPubSubMQTT example_platform DEFAULTS None)
     = Inr (JStr ''{\"uuid\":\"mine\",\"timestamp\":1700000000000}'')"
proof -
  let ?g = "\<lparr>getId = JStr ''id-1'', genTimestamp = JNum 1700000000000\<rparr>"
  let ?s0 = "initPubSubMQTT example_platform DEFAULTS None"
  have pub0: "published ?s0 = []"
    by (simp add: initPubSubMQTT_def addTransform_def Let_def split: option.splits)
  note w = default_pipeline[where g = ?g and u = "''id-1''" and t = 1700000000000
      and P = example_platform and co = None and fresh = ?s0
      and kvs = "[(''uuid'', JStr ''mine'')]" and v = "JStr ''mine''" and topic = "''svc/up''",
      OF _ _ _ refl refl]
  have a: "published (snd (publish ?g ''svc/up'' (JObj []) ?s0))
     = [(''svc/up'', JStr ''{\"uuid\":\"id-1\",\"timestamp\":1700000000000}'')]"
    using w by (simp add: pub0 example_stringify_1)
  have b: "message_payload example_platform ''{\"uuid\":\"id-1\",\"timestamp\":1700000000000}''
     = JObj [(''uuid'', JStr ''id-1''), (''timestamp'', JNum 1700000000000)]"
    using w by (simp add: example_stringify_1 example_parse_1)
  have c: "applyTransforms ?g (JObj [(''uuid'', JStr ''mine'')]) ?s0
     = Inr (JStr ''{\"uuid\":\"mine\",\"timestamp\":1700000000000}'')"
    by (simp add: default_transforms_object example_stringify_2)
  show ?thesis using a b c by blast
qed

text \<open>
  The counterexample to C7 as stated: a payload that has a uuid field, holding the empty
  string, leaves the pipeline with the generated identifier in that field.
\<close>

theorem falsy_uuid_is_replaced:
  "applyTransforms \<lparr>getId = JStr ''id-1'', genTimestamp = JNum 1700000000000\<rparr>
       (JObj [(''uuid'', JStr [])]) (initPubSubMQTT example_platform DEFAULTS None)
     = Inr (JStr ''{\"uuid\":\"id-1\",\"timestamp\":1700000000000}'')
   \<and> message_payload example_platform ''{\"uuid\":\"id-1\",\"timestamp\":1700000000000}''
     = JObj [(''uuid'', JStr ''id-1''), (''timestamp'', JNum 1700000000000)]
   \<and> JStr ''id-1'' \<noteq> JStr []"
  by (simp add: default_transforms_object example_stringify_1 message_payload_def example_parse_1)

section \<open>Dispatch and handlers that throw\<close>

lemma index_entries_keys:
  "map snd (List.map_filter (\<lambda>k. case array_index k of None \<Rightarrow> None | Some n \<Rightarrow> Some (n, k)) ks)
     = filter (\<lambda>k. array_index k \<noteq> None) ks"
  by (induction ks) (auto simp: List.map_filter_simps split: option.splits)


lemma distinct_object_keys:
  assumes "distinct (map fst kvs)"
  shows "distinct (object_keys kvs)"
proof -
  let ?xs = "List.map_filter (\<lambda>k. case array_index k of None \<Rightarrow> None | Some n \<Rightarrow> Some (n, k))
      (map fst kvs)"
  have d: "distinct (map snd ?xs)" using assms by (simp only: index_entries_keys) simp
  then have "distinct ?xs" and inj: "inj_on snd (set ?xs)" by (simp_all add: distinct_map)
  then have "distinct (map snd (sort_key fst ?xs))" by (simp add: distinct_map)
  moreover have "set (map snd (sort_key fst ?xs)) = set (map snd ?xs)" by simp
  then have "set (map snd (sort_key fst ?xs)) \<inter> set (filter (\<lambda>k. array_index k = None) (map fst kvs)) = {}"
    by (simp only: index_entries_keys) auto
  ultimately show ?thesis using assms unfolding object_keys_def by simp
qed

lemma getHandlerForTopic_calls [simp]:
  "getHandlerForTopic (s\<lparr>calls := c\<rparr>) k = getHandlerForTopic s k"
  by (simp add: getHandlerForTopic_def)

lemma invoke_user:
  "invoke (UserHandler f) key topic p s = (f topic p, s\<lparr>calls := calls s @ [(key, topic, p)]\<rparr>)"
  by (simp add: invoke_def)


lemma getHandlerForTopic_other:
  "k' \<noteq> k \<Longrightarrow> getHandlerForTopic (setHandlerForTopic k h s) k' = getHandlerForTopic s k'"
  by (simp add: getHandlerForTopic_def setHandlerForTopic_def update_conv')

lemma invoke_entry:
  assumes "\<forall>i rt fm. h = ResponseHandler i rt fm \<longrightarrow> rt = k"
  shows "fst (invoke h k t p s) = entry_throws (Some h) t p"
    and "calls (snd (invoke h k t p s)) = calls s @ [(k, t, p)]"
    and "k' \<noteq> k \<Longrightarrow> getHandlerForTopic (snd (invoke h k t p s)) k' = getHandlerForTopic s k'"
proof -
  show "fst (invoke h k t p s) = entry_throws (Some h) t p"
    by (cases h) (auto simp: invoke_def entry_throws_def response_handler_def Let_def
        split: sum.splits)
  show "calls (snd (invoke h k t p s)) = calls s @ [(k, t, p)]"
    by (cases h) (auto simp: invoke_def response_handler_def Let_def resolve_def
        setHandlerForTopic_def clearTimeout_def split: sum.splits)
  show "k' \<noteq> k \<Longrightarrow> getHandlerForTopic (snd (invoke h k t p s)) k' = getHandlerForTopic s k'"
    using assms
    by (cases h) (auto simp: invoke_def response_handler_def Let_def resolve_def
        getHandlerForTopic_def setHandlerForTopic_def clearTimeout_def update_conv'
        split: sum.splits)
qed

lemma dispatch_no_match:
  "\<forall>k \<in> set ks. \<not> mqtt_match P k t \<Longrightarrow> dispatch P cfg ks t m s = (None, s)"
  by (induction ks) simp_all

lemma dispatch_payload_throws:
  "attach_responder cfg (message_payload P m) = Inl e \<Longrightarrow>
   filter (\<lambda>k. mqtt_match P k t) ks \<noteq> [] \<Longrightarrow> dispatch P cfg ks t m s = (Some e, s)"
  by (induction ks) auto

lemma dispatch_entries_return:
  assumes "attach_responder cfg (message_payload P m) = Inr p"
  shows "distinct ks \<Longrightarrow>
     \<forall>k \<in> set ks. \<forall>i rt fm. getHandlerForTopic s k = Some (ResponseHandler i rt fm) \<longrightarrow> rt = k \<Longrightarrow>
     \<forall>k \<in> set (filter (\<lambda>k. mqtt_match P k t) ks). entry_throws (getHandlerForTopic s k) t p = None \<Longrightarrow>
     fst (dispatch P cfg ks t m s) = None
     \<and> calls (snd (dispatch P cfg ks t m s))
         = calls s @ map (\<lambda>k. (k, t, p)) (filter (\<lambda>k. mqtt_match P k t) ks)"
proof (induction ks arbitrary: s)
  case Nil
  show ?case by simp
next
  case (Cons k ks)
  show ?case
  proof (cases "mqtt_match P k t")
    case False
    then show ?thesis using Cons.IH[of s] Cons.prems by simp
  next
    case True
    have et: "entry_throws (getHandlerForTopic s k) t p = None" using Cons.prems(3) True by simp
    then obtain h where h: "getHandlerForTopic s k = Some h"
      by (cases "getHandlerForTopic s k") (simp_all add: entry_throws_def)
    have own: "\<forall>i rt fm. h = ResponseHandler i rt fm \<longrightarrow> rt = k"
      using Cons.prems(2) h by simp
    obtain r s1 where inv: "invoke h k t p s = (r, s1)" by (cases "invoke h k t p s")
    have r: "r = None" using invoke_entry(1)[OF own, of t p s] inv et h by simp
    have c1: "calls s1 = calls s @ [(k, t, p)]"
      using invoke_entry(2)[OF own, of t p s] inv by simp
    have lk: "getHandlerForTopic s1 k' = getHandlerForTopic s k'" if "k' \<in> set ks" for k'
    proof -
      have "k' \<noteq> k" using that Cons.prems(1) by auto
      then show ?thesis using invoke_entry(3)[OF own, of k' t p s] inv by simp
    qed
    have d: "dispatch P cfg (k # ks) t m s = dispatch P cfg ks t m s1"
      using True assms h inv r by simp
    have ih: "fst (dispatch P cfg ks t m s1) = None
       \<and> calls (snd (dispatch P cfg ks t m s1))
           = calls s1 @ map (\<lambda>k. (k, t, p)) (filter (\<lambda>k. mqtt_match P k t) ks)"
      using Cons.IH[of s1] Cons.prems lk by simp
    show ?thesis unfolding d using ih True by (simp add: c1)
  qed
qed

lemma dispatch_entries_throw:
  assumes "attach_responder cfg (message_payload P m) = Inr p"
  shows "distinct ks \<Longrightarrow>
     \<forall>k \<in> set ks. \<forall>i rt fm. getHandlerForTopic s k = Some (ResponseHandler i rt fm) \<longrightarrow> rt = k \<Longrightarrow>
     filter (\<lambda>k. mqtt_match P k t) ks = before @ k # after \<Longrightarrow>
     \<forall>k' \<in> set before. entry_throws (getHandlerForTopic s k') t p = None \<Longrightarrow>
     entry_throws (getHandlerForTopic s k) t p = Some e \<Longrightarrow>
     getHandlerForTopic s k = h \<Longrightarrow>
     fst (dispatch P cfg ks t m s) = Some e
     \<and> calls (snd (dispatch P cfg ks t m s))
         = calls s @ map (\<lambda>k. (k, t, p)) (before @ (if h = None then [] else [k]))"
proof (induction ks arbitrary: s before)
  case Nil
  then show ?case by simp
next
  case (Cons k0 ks)
  show ?case
  proof (cases "mqtt_match P k0 t")
    case False
    then show ?thesis using Cons.IH[of s before] Cons.prems by simp
  next
    case True
    have fl: "k0 # filter (\<lambda>k. mqtt_match P k t) ks = before @ k # after"
      using Cons.prems(3) True by simp
    show ?thesis
    proof (cases before)
      case Nil
      then have k0: "k0 = k" using fl by simp
      show ?thesis
      proof (cases h)
        case None
        then show ?thesis using True assms Cons.prems(5,6) Nil k0
          by (simp add: entry_throws_def)
      next
        case (Some hd)
        have own: "\<forall>i rt fm. hd = ResponseHandler i rt fm \<longrightarrow> rt = k"
          using Cons.prems(2,6) Some k0 by simp
        obtain r s1 where inv: "invoke hd k t p s = (r, s1)" by (cases "invoke hd k t p s")
        have r: "r = Some e"
          using invoke_entry(1)[OF own, of t p s] inv Cons.prems(5,6) Some by simp
        have c1: "calls s1 = calls s @ [(k, t, p)]"
          using invoke_entry(2)[OF own, of t p s] inv by simp
        show ?thesis using True assms Cons.prems(6) Some k0 inv r c1 Nil by simp
      qed
    next
      case (Cons x before')
      then have x: "x = k0"
        and rest: "filter (\<lambda>k. mqtt_match P k t) ks = before' @ k # after"
        using fl by simp_all
      have et: "entry_throws (getHandlerForTopic s k0) t p = None"
        using Cons.prems(4) Cons x by simp
      then obtain h0 where h0: "getHandlerForTopic s k0 = Some h0"
        by (cases "getHandlerForTopic s k0") (simp_all add: entry_throws_def)
      have own: "\<forall>i rt fm. h0 = ResponseHandler i rt fm \<longrightarrow> rt = k0"
        using Cons.prems(2) h0 by simp
      obtain r s1 where inv: "invoke h0 k0 t p s = (r, s1)" by (cases "invoke h0 k0 t p s")
      have r: "r = None" using invoke_entry(1)[OF own, of t p s] inv et h0 by simp
      have c1: "calls s1 = calls s @ [(k0, t, p)]"
        using invoke_entry(2)[OF own, of t p s] inv by simp
      have lk: "getHandlerForTopic s1 k' = getHandlerForTopic s k'" if "k' \<in> set ks" for k'
      proof -
        have "k' \<noteq> k0" using that Cons.prems(1) by auto
        then show ?thesis using invoke_entry(3)[OF own, of k' t p s] inv by simp
      qed
      have kin: "k \<in> set ks" "set before' \<subseteq> set ks"
      proof -
        have "set (filter (\<lambda>k. mqtt_match P k t) ks) \<subseteq> set ks" by auto
        then show "k \<in> set ks" "set before' \<subseteq> set ks" unfolding rest by auto
      qed
      have d: "dispatch P cfg (k0 # ks) t m s = dispatch P cfg ks t m s1"
        using True assms h0 inv r by simp
      have ih: "fst (dispatch P cfg ks t m s1) = Some e
         \<and> calls (snd (dispatch P cfg ks t m s1))
             = calls s1 @ map (\<lambda>k. (k, t, p)) (before' @ (if h = None then [] else [k]))"
      proof (rule Cons.IH[of s1 before'])
        show "distinct ks" using Cons.prems(1) by simp
        show "\<forall>k \<in> set ks. \<forall>i rt fm.
            getHandlerForTopic s1 k = Some (ResponseHandler i rt fm) \<longrightarrow> rt = k"
          using Cons.prems(2) lk by simp
        show "filter (\<lambda>k. mqtt_match P k t) ks = before' @ k # after" by (rule rest)
        show "\<forall>k' \<in> set before'. entry_throws (getHandlerForTopic s1 k') t p = None"
          using Cons.prems(4) Cons lk kin by auto
        show "entry_throws (getHandlerForTopic s1 k) t p = Some e"
          using Cons.prems(5) lk kin by simp
        show "getHandlerForTopic s1 k = h" using Cons.prems(6) lk kin by simp
      qed
      show ?thesis unfolding d using ih Cons x by (simp add: c1)
    qed
  qed
qed

text \<open>
  C3 (as amended). The patterns are visited in the order of \<open>Object.keys\<close> of the handler
  table, and for each pattern that matches the topic the payload is prepared and the
  entry called. Nothing but the JSON parsing is guarded. When no pattern matches, nothing
  happens. When the payload cannot be prepared (the message \<open>null\<close>), the TypeError
  leaves the listener at the first matching pattern and no handler is called. Otherwise
  the first matching entry that throws (a handler that throws, \<open>options.format\<close> inside
  the handler of a request, or an entry left \<open>undefined\<close> by an answered request, which
  cannot be called) ends the dispatch with its exception: the matching handlers before it
  have been called, those after it are not. Only when no matching entry throws is every
  matching handler called, in that order, and the listener ends normally.
\<close>

theorem dispatch_handler_exception:
  assumes keys: "distinct (map fst (handlers s))"
    and own: "\<forall>(k, h) \<in> set (handlers s). \<forall>i rt fm. h = Some (ResponseHandler i rt fm) \<longrightarrow> rt = k"
    and matching: "matching = filter (\<lambda>k. mqtt_match P k topic) (object_keys (handlers s))"
  shows "(matching = [] \<longrightarrow> on_message P cfg topic message s = (None, s))
    \<and> (matching \<noteq> [] \<and> attach_responder cfg (message_payload P message) = Inl e \<longrightarrow>
          on_message P cfg topic message s = (Some e, s))
    \<and> (attach_responder cfg (message_payload P message) = Inr p
        \<and> (\<forall>k \<in> set matching. entry_throws (getHandlerForTopic s k) topic p = None) \<longrightarrow>
          fst (on_message P cfg topic message s) = None
          \<and> calls (snd (on_message P cfg topic message s))
              = calls s @ map (\<lambda>k. (k, topic, p)) matching)
    \<and> (attach_responder cfg (message_payload P message) = Inr p
        \<and> matching = before @ k # after
        \<and> (\<forall>k' \<in> set before. entry_throws (getHandlerForTopic s k') topic p = None)
        \<and> entry_throws (getHandlerForTopic s k) topic p = Some e \<longrightarrow>
          fst (on_message P cfg topic message s) = Some e
          \<and> calls (snd (on_message P cfg topic message s))
              = calls s @ map (\<lambda>k. (k, topic, p))
                  (before @ (if getHandlerForTopic s k = None then [] else [k])))"
proof -
  let ?ks = "object_keys (handlers s)"
  have d: "distinct ?ks" using keys by (rule distinct_object_keys)
  have o: "\<forall>k \<in> set ?ks. \<forall>i rt fm.
      getHandlerForTopic s k = Some (ResponseHandler i rt fm) \<longrightarrow> rt = k"
  proof (intro ballI allI impI)
    fix k i rt fm
    assume "getHandlerForTopic s k = Some (ResponseHandler i rt fm)"
    then have "map_of (handlers s) k = Some (Some (ResponseHandler i rt fm))"
      by (auto simp: getHandlerForTopic_def split: option.splits)
    then have "(k, Some (ResponseHandler i rt fm)) \<in> set (handlers s)" by (rule map_of_SomeD)
    then show "rt = k" using own by auto
  qed
  have a: "matching = [] \<longrightarrow> on_message P cfg topic message s = (None, s)"
    unfolding on_message_def matching
    by (auto simp: filter_empty_conv intro: dispatch_no_match)
  have b: "matching \<noteq> [] \<and> attach_responder cfg (message_payload P message) = Inl e \<longrightarrow>
          on_message P cfg topic message s = (Some e, s)"
    unfolding on_message_def matching using dispatch_payload_throws by blast
  have c: "attach_responder cfg (message_payload P message) = Inr p
        \<and> (\<forall>k \<in> set matching. entry_throws (getHandlerForTopic s k) topic p = None) \<longrightarrow>
          fst (on_message P cfg topic message s) = None
          \<and> calls (snd (on_message P cfg topic message s))
              = calls s @ map (\<lambda>k. (k, topic, p)) matching"
    unfolding on_message_def matching using dispatch_entries_return[OF _ d o] by blast
  have t: "attach_responder cfg (message_payload P message) = Inr p
        \<and> matching = before @ k # after
        \<and> (\<forall>k' \<in> set before. entry_throws (getHandlerForTopic s k') topic p = None)
        \<and> entry_throws (getHandlerForTopic s k) topic p = Some e \<longrightarrow>
          fst (on_message P cfg topic message s) = Some e
          \<and> calls (snd (on_message P cfg topic message s))
              = calls s @ map (\<lambda>k. (k, topic, p))
                  (before @ (if getHandlerForTopic s k = None then [] else [k]))"
    unfolding on_message_def matching
    using dispatch_entries_throw[OF _ d o _ _ _ refl] by blast
  show ?thesis using a b c t by blast
qed

lemma example_not_json: "JSON_parse example_platform ''hello'' = None"
  by (simp add: example_platform_def example_documents_def)

lemma example_payload_hello:
  "attach_responder DEFAULTS (message_payload example_platform ''hello'') = Inr (JStr ''hello'')"
  by (simp add: attach_responder_def message_payload_def example_not_json)

lemma example_payload_null:
  "attach_responder DEFAULTS (message_payload example_platform ''null'') = Inl TypeError"
  by (simp add: attach_responder_def message_payload_def example_platform_def
      example_documents_def)

lemma example_match: "mqtt_match example_platform = matches"
  by (simp add: example_platform_def)

lemma init_handlers: "handlers (initPubSubMQTT P cfg co) = cfg_handlers cfg"
  by (simp add: initPubSubMQTT_def addTransform_def Let_def split: option.splits)

lemma init_calls: "calls (initPubSubMQTT P cfg co) = []"
  by (simp add: initPubSubMQTT_def addTransform_def Let_def split: option.splits)

lemma subscribe_handlers:
  "handlers (subscribe topic h s) = AList.update topic h (handlers s)"
  by (simp add: subscribe_def setHandlerForTopic_def Let_def)

lemma subscribe_calls: "calls (subscribe topic h s) = calls s"
  by (simp add: subscribe_def setHandlerForTopic_def Let_def)

lemma object_keys_no_index:
  "\<forall>k \<in> fst ` set kvs. array_index k = None \<Longrightarrow> object_keys kvs = map fst kvs"
proof -
  assume a: "\<forall>k \<in> fst ` set kvs. array_index k = None"
  have "List.map_filter (\<lambda>k. case array_index k of None \<Rightarrow> None | Some n \<Rightarrow> Some (n, k)) ks = []"
    if "\<forall>k \<in> set ks. array_index k = None" for ks
    using that by (induction ks) (simp_all add: List.map_filter_simps)
  then show ?thesis using a by (simp add: object_keys_def)
qed

lemma example_indices:
  "array_index ''a/+'' = None" "array_index ''a/b'' = None" "array_index ''a/#'' = None"
  "array_index ''#'' = None" "array_index ''7'' = Some 7"
  "array_index ''echo/res/k3-x1'' = None"
  by (simp_all add: array_index_def digit_of_def)

text \<open>
  The counterexample to C3 as stated: two patterns match the topic \<open>a/b\<close>; the handler of
  the first throws, the exception comes out of the listener and the handler of the second
  is never called.
\<close>

theorem throwing_handler_stops_dispatch:
  "fst (on_message example_platform DEFAULTS ''a/b'' ''hello''
         (subscribe ''a/b'' (Some (UserHandler (\<lambda>t p. None)))
           (subscribe ''a/+'' (Some (UserHandler (\<lambda>t p. Some (Error ''boom''))))
             (initPubSubMQTT example_platform DEFAULTS None))))
     = Some (Error ''boom'')
   \<and> calls (snd (on_message example_platform DEFAULTS ''a/b'' ''hello''
         (subscribe ''a/b'' (Some (UserHandler (\<lambda>t p. None)))
           (subscribe ''a/+'' (Some (UserHandler (\<lambda>t p. Some (Error ''boom''))))
             (initPubSubMQTT example_platform DEFAULTS None)))))
     = [(''a/+'', ''a/b'', JStr ''hello'')]
   \<and> matches ''a/b'' ''a/b''"
proof -
  let ?s = "subscribe ''a/b'' (Some (UserHandler (\<lambda>t p. None)))
           (subscribe ''a/+'' (Some (UserHandler (\<lambda>t p. Some (Error ''boom''))))
             (initPubSubMQTT example_platform DEFAULTS None))"
  have hs: "handlers ?s = [(''a/+'', Some (UserHandler (\<lambda>t p. Some (Error ''boom'')))),
                          (''a/b'', Some (UserHandler (\<lambda>t p. None)))]"
    by (simp add: subscribe_handlers init_handlers DEFAULTS_def)
  have ks: "object_keys (handlers ?s) = [''a/+'', ''a/b'']"
    unfolding hs by (subst object_keys_no_index) (simp_all add: example_indices)
  have cs: "calls ?s = []"
    by (simp add: subscribe_calls init_calls)
  have m1: "matches ''a/+'' ''a/b''" and m2: "matches ''a/b'' ''a/b''"
    by (simp_all add: matches_def segments_def)
  have lk: "getHandlerForTopic ?s ''a/+'' = Some (UserHandler (\<lambda>t p. Some (Error ''boom'')))"
    by (simp add: getHandlerForTopic_def hs)
  have "on_message example_platform DEFAULTS ''a/b'' ''hello'' ?s
      = (Some (Error ''boom''), ?s\<lparr>calls := [(''a/+'', ''a/b'', JStr ''hello'')]\<rparr>)"
    by (simp add: on_message_def ks cs example_match m1 example_payload_hello lk invoke_user)
  then show ?thesis using m2 by simp
qed

theorem dispatch_handler_exception_witness:
  "fst (on_message example_platform DEFAULTS ''7'' ''hello''
         (subscribe ''7'' (Some (UserHandler (\<lambda>t p. Some (Error ''boom''))))
           (subscribe ''#'' (Some (UserHandler (\<lambda>t p. None)))
             (initPubSubMQTT example_platform DEFAULTS None))))
     = Some (Error ''boom'')
   \<and> calls (snd (on_message example_platform DEFAULTS ''7'' ''hello''
         (subscribe ''7'' (Some (UserHandler (\<lambda>t p. Some (Error ''boom''))))
           (subscribe ''#'' (Some (UserHandler (\<lambda>t p. None)))
             (initPubSubMQTT example_platform DEFAULTS None)))))
     = [(''7'', ''7'', JStr ''hello'')]
   \<and> on_message example_platform DEFAULTS ''a/b'' ''null''
         (subscribe ''a/b'' (Some (UserHandler (\<lambda>t p. None)))
           (initPubSubMQTT example_platform DEFAULTS None))
     = (Some TypeError,
        subscribe ''a/b'' (Some (UserHandler (\<lambda>t p. None)))
           (initPubSubMQTT example_platform DEFAULTS None))
   \<and> fst (on_message example_platform DEFAULTS ''a/b'' ''hello''
         (setHandlerForTopic ''a/b'' None
           (subscribe ''a/b'' (Some (UserHandler (\<lambda>t p. None)))
             (initPubSubMQTT example_platform DEFAULTS None))))
     = Some TypeError
   \<and> calls (snd (on_message example_platform DEFAULTS ''a/b'' ''hello''
         (setHandlerForTopic ''a/b'' None
           (subscribe ''a/b'' (Some (UserHandler (\<lambda>t p. None)))
             (initPubSubMQTT example_platform DEFAULTS None)))))
     = []
   \<and> fst (on_message example_platform DEFAULTS ''a/b'' ''hello''
         (subscribe ''a/b'' (Some (UserHandler (\<lambda>t p. None)))
           (subscribe ''a/#'' (Some (UserHandler (\<lambda>t p. None)))
             (initPubSubMQTT example_platform DEFAULTS None))))
     = None
   \<and> calls (snd (on_message example_platform DEFAULTS ''a/b'' ''hello''
         (subscribe ''a/b'' (Some (UserHandler (\<lambda>t p. None)))
           (subscribe ''a/#'' (Some (UserHandler (\<lambda>t p. None)))
             (initPubSubMQTT example_platform DEFAULTS None)))))
     = [(''a/#'', ''a/b'', JStr ''hello''), (''a/b'', ''a/b'', JStr ''hello'')]"
proof -
  let ?ok = "UserHandler (\<lambda>t p. None)"
  let ?boom = "UserHandler (\<lambda>t p. Some (Error ''boom''))"
  let ?s0 = "initPubSubMQTT example_platform DEFAULTS None"
  let ?s1 = "subscribe ''7'' (Some ?boom) (subscribe ''#'' (Some ?ok) ?s0)"
  let ?s2 = "subscribe ''a/b'' (Some ?ok) ?s0"
  let ?s3 = "setHandlerForTopic ''a/b'' None ?s2"
  let ?s4 = "subscribe ''a/b'' (Some ?ok) (subscribe ''a/#'' (Some ?ok) ?s0)"
  have h1: "handlers ?s1 = [(''#'', Some ?ok), (''7'', Some ?boom)]"
    and h2: "handlers ?s2 = [(''a/b'', Some ?ok)]"
    and h3: "handlers ?s3 = [(''a/b'', None)]"
    and h4: "handlers ?s4 = [(''a/#'', Some ?ok), (''a/b'', Some ?ok)]"
    by (simp_all add: subscribe_handlers setHandlerForTopic_def init_handlers DEFAULTS_def)
  have c: "calls ?s1 = []" "calls ?s2 = []" "calls ?s3 = []" "calls ?s4 = []"
    by (simp_all add: subscribe_calls setHandlerForTopic_def init_calls)
  have k1: "object_keys (handlers ?s1) = [''7'', ''#'']"
    unfolding h1 by (simp add: object_keys_def List.map_filter_simps example_indices)
  have k2: "object_keys (handlers ?s2) = [''a/b'']"
    unfolding h2 by (subst object_keys_no_index) (simp_all add: example_indices)
  have k3: "object_keys (handlers ?s3) = [''a/b'']"
    unfolding h3 by (subst object_keys_no_index) (simp_all add: example_indices)
  have k4: "object_keys (handlers ?s4) = [''a/#'', ''a/b'']"
    unfolding h4 by (subst object_keys_no_index) (simp_all add: example_indices)
  have m: "matches ''7'' ''7''" "matches ''#'' ''7''" "matches ''a/b'' ''a/b''"
    "matches ''a/#'' ''a/b''"
    by (simp_all add: matches_def segments_def)
  have d: "distinct (map fst (handlers ?s1))" "distinct (map fst (handlers ?s2))"
    "distinct (map fst (handlers ?s3))" "distinct (map fst (handlers ?s4))"
    by (simp_all add: h1 h2 h3 h4)
  have o: "\<forall>(k, h) \<in> set (handlers ?s1). \<forall>i rt fm. h = Some (ResponseHandler i rt fm) \<longrightarrow> rt = k"
    "\<forall>(k, h) \<in> set (handlers ?s2). \<forall>i rt fm. h = Some (ResponseHandler i rt fm) \<longrightarrow> rt = k"
    "\<forall>(k, h) \<in> set (handlers ?s3). \<forall>i rt fm. h = Some (ResponseHandler i rt fm) \<longrightarrow> rt = k"
    "\<forall>(k, h) \<in> set (handlers ?s4). \<forall>i rt fm. h = Some (ResponseHandler i rt fm) \<longrightarrow> rt = k"
    by (simp_all add: h1 h2 h3 h4)
  have g1: "getHandlerForTopic ?s1 ''7'' = Some ?boom" "getHandlerForTopic ?s1 ''#'' = Some ?ok"
    and g3: "getHandlerForTopic ?s3 ''a/b'' = None"
    and g4: "getHandlerForTopic ?s4 ''a/#'' = Some ?ok" "getHandlerForTopic ?s4 ''a/b'' = Some ?ok"
    by (simp_all add: getHandlerForTopic_def h1 h3 h4)
  have w1: "fst (on_message example_platform DEFAULTS ''7'' ''hello'' ?s1) = Some (Error ''boom'')
      \<and> calls (snd (on_message example_platform DEFAULTS ''7'' ''hello'' ?s1))
          = [(''7'', ''7'', JStr ''hello'')]"
    using dispatch_handler_exception[OF d(1) o(1) refl, where P = example_platform
        and cfg = DEFAULTS and topic = "''7''" and message = "''hello''" and p = "JStr ''hello''"
        and before = "[]" and k = "''7''" and after = "[''#'']" and e = "Error ''boom''"]
    by (simp add: k1 example_match m example_payload_hello g1
        entry_throws_def c)
  have w2: "on_message example_platform DEFAULTS ''a/b'' ''null'' ?s2 = (Some TypeError, ?s2)"
    using dispatch_handler_exception[OF d(2) o(2) refl, where P = example_platform
        and cfg = DEFAULTS and topic = "''a/b''" and message = "''null''" and e = TypeError]
    by (simp add: k2 example_match m example_payload_null)
  have w3: "fst (on_message example_platform DEFAULTS ''a/b'' ''hello'' ?s3) = Some TypeError
      \<and> calls (snd (on_message example_platform DEFAULTS ''a/b'' ''hello'' ?s3)) = []"
    using dispatch_handler_exception[OF d(3) o(3) refl, where P = example_platform
        and cfg = DEFAULTS and topic = "''a/b''" and message = "''hello''" and p = "JStr ''hello''"
        and before = "[]" and k = "''a/b''" and after = "[]" and e = TypeError]
    by (simp add: k3 example_match m example_payload_hello g3
        entry_throws_def c)
  have w4: "fst (on_message example_platform DEFAULTS ''a/b'' ''hello'' ?s4) = None
      \<and> calls (snd (on_message example_platform DEFAULTS ''a/b'' ''hello'' ?s4))
          = [(''a/#'', ''a/b'', JStr ''hello''), (''a/b'', ''a/b'', JStr ''hello'')]"
    using dispatch_handler_exception[OF d(4) o(4) refl, where P = example_platform
        and cfg = DEFAULTS and topic = "''a/b''" and message = "''hello''" and p = "JStr ''hello''"]
    by (simp add: k4 example_match m example_payload_hello g4
        entry_throws_def c)
  show ?thesis using w1 w2 w3 w4 by blast
qed

section \<open>Requests: response against timeout\<close>


lemma promises_reject:
  "promises (reject j e s) i =
     (if i = j \<and> promises s i = Pending then Rejected e else promises s i)"
  by (simp add: reject_def split: promise.splits)

lemma promises_clearTimeout [simp]: "promises (clearTimeout j s) = promises s"
  by (simp add: clearTimeout_def)

lemma promises_setHandlerForTopic [simp]: "promises (setHandlerForTopic k h s) = promises s"
  by (simp add: setHandlerForTopic_def)












lemma publish_fields:
  "handlers (snd (publish g topic data s)) = handlers s"
  "timers (snd (publish g topic data s)) = timers s"
  "promises (snd (publish g topic data s)) = promises s"
  by (simp_all add: publish_def split: sum.splits)

lemma request_executor_fields:
  "fst (request_executor g topic payload options rt s) = next_request s"
  "handlers (snd (request_executor g topic payload options rt s))
     = AList.update rt (Some (ResponseHandler (next_request s) rt (format options))) (handlers s)"
  "timers (snd (request_executor g topic payload options rt s)) (next_request s)
     = (if 0 < timeoutResponseAfter options then Armed else NoTimer)"
proof -
  let ?i = "next_request s"
  let ?s2 = "subscribe rt (Some (ResponseHandler ?i rt (format options)))
      (s\<lparr>next_request := Suc ?i, promises := (promises s)(?i := Pending),
         timers := (timers s)(?i := (if 0 < timeoutResponseAfter options then Armed else NoTimer))\<rparr>)"
  obtain r s3 where pb: "publish g topic payload ?s2 = (r, s3)" by (cases "publish g topic payload ?s2")
  have h3: "handlers s3 = handlers ?s2" "timers s3 = timers ?s2"
    using publish_fields[of g topic payload ?s2] pb by simp_all
  have ex: "request_executor g topic payload options rt s
      = (case r of None \<Rightarrow> (?i, s3) | Some e \<Rightarrow> (?i, reject ?i e s3))"
    using pb by (simp add: request_executor_def Let_def)
  show "fst (request_executor g topic payload options rt s) = next_request s"
    unfolding ex by (cases r) simp_all
  show "handlers (snd (request_executor g topic payload options rt s))
     = AList.update rt (Some (ResponseHandler (next_request s) rt (format options))) (handlers s)"
    unfolding ex using h3
    by (cases r) (simp_all add: reject_def subscribe_def setHandlerForTopic_def Let_def)
  show "timers (snd (request_executor g topic payload options rt s)) (next_request s)
     = (if 0 < timeoutResponseAfter options then Armed else NoTimer)"
    unfolding ex using h3
    by (cases r) (simp_all add: reject_def subscribe_def setHandlerForTopic_def Let_def)
qed

lemma request_fields:
  assumes "request P cfg rndm g topic data opts s = (Inr i, s1)"
  shows "handlers s1 = AList.update (topic @ ''/res/'' @ rndm)
           (Some (ResponseHandler i (topic @ ''/res/'' @ rndm)
                   (format (extend_options (responseOptions cfg) opts)))) (handlers s)"
    and "timers s1 i =
           (if 0 < timeoutResponseAfter (extend_options (responseOptions cfg) opts)
            then Armed else NoTimer)"
proof -
  let ?opts = "extend_options (responseOptions cfg) opts"
  let ?rt = "topic @ ''/res/'' @ rndm"
  obtain payload where
    ap: "appendToPayload P (if data = JUndefined then JStr [] else data)
           (JObj [(topicKey ?opts, JStr ?rt)]) = Inr payload"
    using assms by (auto simp: request_def Let_def split: sum.splits)
  have eq: "(Inr i, s1) = (Inr (fst (request_executor g topic payload ?opts ?rt s)),
                          snd (request_executor g topic payload ?opts ?rt s))"
    using assms ap by (simp add: request_def Let_def split_def)
  then have i: "i = next_request s" and s1: "s1 = snd (request_executor g topic payload ?opts ?rt s)"
    by (simp_all add: request_executor_fields)
  show "handlers s1 = AList.update ?rt (Some (ResponseHandler i ?rt (format ?opts))) (handlers s)"
    by (simp add: i s1 request_executor_fields)
  show "timers s1 i = (if 0 < timeoutResponseAfter ?opts then Armed else NoTimer)"
    by (simp add: i s1 request_executor_fields)
qed








lemma example_options:
  "extend_options (responseOptions DEFAULTS)
       (no_options\<lparr>opt_timeoutResponseAfter := Some 50, opt_format := f\<rparr>)
     = \<lparr>callerKey = ''response'', topicKey = ''respondTo'', timeoutResponseAfter = 50,
        format = (case f of None \<Rightarrow> FormatFn Inr | Some fn \<Rightarrow> fn)\<rparr>"
  by (simp add: extend_options_def DEFAULTS_def defaultResponseOptions_def no_options_def
      split: option.splits)

lemma example_client_fields:
  "handlers example_client = []" "next_request example_client = 0"
  "promises example_client = (\<lambda>i. Pending)" "calls example_client = []"
  by (simp_all add: example_client_def initPubSubMQTT_def addTransform_def Let_def DEFAULTS_def
      split: option.splits)

lemma request_object:
  "request P cfg rndm g topic (JObj kvs) opts s =
     (Inr (fst (request_executor g topic
            (JObj (gextend [] [JObj [(topicKey (extend_options (responseOptions cfg) opts),
                                      JStr (topic @ ''/res/'' @ rndm))], JObj kvs]))
            (extend_options (responseOptions cfg) opts) (topic @ ''/res/'' @ rndm) s)),
      snd (request_executor g topic
            (JObj (gextend [] [JObj [(topicKey (extend_options (responseOptions cfg) opts),
                                      JStr (topic @ ''/res/'' @ rndm))], JObj kvs]))
            (extend_options (responseOptions cfg) opts) (topic @ ''/res/'' @ rndm) s))"
  by (rule request_prepared) (simp add: appendToPayload_object)

text \<open>
  The example request, for any \<open>format\<close> option: it returns the promise of request 0,
  pending, with the timer armed and the handler under the response topic.
\<close>

lemma example_echo_request:
  "fst (request example_platform DEFAULTS ''k3-x1'' example_gens ''echo'' (JObj [(''x'', JNum 1)])
       (no_options\<lparr>opt_timeoutResponseAfter := Some 50, opt_format := f\<rparr>) example_client)
     = Inr 0"
  "promises (snd (request example_platform DEFAULTS ''k3-x1'' example_gens ''echo''
       (JObj [(''x'', JNum 1)])
       (no_options\<lparr>opt_timeoutResponseAfter := Some 50, opt_format := f\<rparr>) example_client)) 0
     = Pending"
  "calls (snd (request example_platform DEFAULTS ''k3-x1'' example_gens ''echo''
       (JObj [(''x'', JNum 1)])
       (no_options\<lparr>opt_timeoutResponseAfter := Some 50, opt_format := f\<rparr>) example_client))
     = []"
  "handlers (snd (request example_platform DEFAULTS ''k3-x1'' example_gens ''echo''
       (JObj [(''x'', JNum 1)])
       (no_options\<lparr>opt_timeoutResponseAfter := Some 50, opt_format := f\<rparr>) example_client))
     = [(''echo/res/k3-x1'', Some (ResponseHandler 0 ''echo/res/k3-x1''
           (case f of None \<Rightarrow> FormatFn Inr | Some fn \<Rightarrow> fn)))]"
  "timers (snd (request example_platform DEFAULTS ''k3-x1'' example_gens ''echo''
       (JObj [(''x'', JNum 1)])
       (no_options\<lparr>opt_timeoutResponseAfter := Some 50, opt_format := f\<rparr>) example_client)) 0
     = Armed"
proof -
  let ?opts = "no_options\<lparr>opt_timeoutResponseAfter := Some 50, opt_format := f\<rparr>"
  let ?fm = "case f of None \<Rightarrow> FormatFn Inr | Some fn \<Rightarrow> fn"
  let ?r = "request example_platform DEFAULTS ''k3-x1'' example_gens ''echo''
       (JObj [(''x'', JNum 1)]) ?opts example_client"
  let ?p = "JObj (gextend [] [JObj [(''respondTo'', JStr ''echo/res/k3-x1'')], JObj [(''x'', JNum 1)]])"
  let ?s2 = "subscribe ''echo/res/k3-x1''
      (Some (ResponseHandler 0 ''echo/res/k3-x1'' ?fm))
      (example_client\<lparr>next_request := Suc 0, promises := (promises example_client)(0 := Pending),
         timers := (timers example_client)(0 := Armed)\<rparr>)"
  show f1: "fst ?r = Inr 0"
    by (subst request_object) (simp add: request_executor_fields example_client_fields)
  have made: "?r = (Inr 0, snd ?r)" using f1 by (cases ?r) simp
  have pb: "applyTransforms example_gens ?p ?s2 \<noteq> Inl e" for e
    by (simp add: gextend_def applyTransforms_def subscribe_def setHandlerForTopic_def Let_def
        example_client_def init_transforms ensure_uuid_def ensure_timestamp_def DEFAULTS_def
        serialize_def)
  have ex: "snd ?r
      = snd (request_executor example_gens ''echo'' ?p
          \<lparr>callerKey = ''response'', topicKey = ''respondTo'', timeoutResponseAfter = 50,
            format = ?fm\<rparr> ''echo/res/k3-x1'' example_client)"
    by (subst request_object) (simp add: example_options)
  show "promises (snd ?r) 0 = Pending"
    unfolding ex using pb
    by (auto simp: request_executor_def Let_def example_client_fields publish_def
        subscribe_def setHandlerForTopic_def split: sum.splits)
  show "calls (snd ?r) = []"
    unfolding ex using pb
    by (auto simp: request_executor_def Let_def example_client_fields publish_def
        subscribe_def setHandlerForTopic_def split: sum.splits)
  show "handlers (snd ?r) = [(''echo/res/k3-x1'', Some (ResponseHandler 0 ''echo/res/k3-x1'' ?fm))]"
    using request_fields(1)[OF made] by (simp add: example_options example_client_fields)
  show "timers (snd ?r) 0 = Armed"
    using request_fields(2)[OF made] by (simp add: example_options)
qed

lemma example_request_unfold:
  "example_request
     = request example_platform DEFAULTS ''k3-x1'' example_gens ''echo'' (JObj [(''x'', JNum 1)])
         (no_options\<lparr>opt_timeoutResponseAfter := Some 50, opt_format := None\<rparr>) example_client"
  by (simp add: example_request_def no_options_def)


lemma example_request_state:
  "promises (snd example_request) 0 = Pending \<and> calls (snd example_request) = []"
  unfolding example_request_unfold using example_echo_request(2,3)[of None] by simp

lemma example_request_table:
  "handlers (snd example_request)
     = [(''echo/res/k3-x1'', Some (ResponseHandler 0 ''echo/res/k3-x1'' (FormatFn Inr)))]"
  "timers (snd example_request) 0 = Armed"
  unfolding example_request_unfold using example_echo_request(4,5)[of None] by simp_all



lemma example_response_payload:
  "attach_responder DEFAULTS (message_payload example_platform ''{\"ok\":true}'')
     = Inr (JObj [(''ok'', JBool True)])"
  by (simp add: attach_responder_def message_payload_def example_platform_def
      example_documents_def DEFAULTS_def defaultResponseOptions_def)




lemma timer_fire_fields:
  "handlers (timer_fire i s) = handlers s" "calls (timer_fire i s) = calls s"
  by (simp_all add: timer_fire_def reject_def)

text \<open>
  C2, on the code: the timer's callback rejects and does nothing else. After the timer
  of the example request has fired, the handler of the response topic is still in the
  table, and a response that arrives then is dispatched to it.
\<close>

theorem timeout_leaves_response_handler:
  "getHandlerForTopic (timer_fire 0 (snd example_request)) ''echo/res/k3-x1''
     = Some (ResponseHandler 0 ''echo/res/k3-x1'' (FormatFn Inr))
   \<and> promises (timer_fire 0 (snd example_request)) 0 = Rejected (Error ''Timeout error'')
   \<and> calls (snd (on_message example_platform DEFAULTS ''echo/res/k3-x1'' ''{\"ok\":true}''
        (timer_fire 0 (snd example_request))))
     = [(''echo/res/k3-x1'', ''echo/res/k3-x1'', JObj [(''ok'', JBool True)])]"
proof -
  let ?s = "timer_fire 0 (snd example_request)"
  have lk: "getHandlerForTopic ?s ''echo/res/k3-x1''
      = Some (ResponseHandler 0 ''echo/res/k3-x1'' (FormatFn Inr))"
    by (simp add: getHandlerForTopic_def timer_fire_fields example_request_table)
  have pr: "promises ?s 0 = Rejected (Error ''Timeout error'')"
    using example_request_state
    by (simp add: timer_fire_def promises_reject example_request_table)
  have m: "mqtt_match example_platform ''echo/res/k3-x1'' ''echo/res/k3-x1''"
    by (simp add: example_platform_def matches_def segments_def)
  have cs: "calls ?s = []"
    using example_request_state by (simp add: timer_fire_fields)
  have ks: "object_keys (handlers ?s) = [''echo/res/k3-x1'']"
    unfolding timer_fire_fields example_request_table
    by (subst object_keys_no_index) (simp_all add: example_indices)
  have "calls (snd (on_message example_platform DEFAULTS ''echo/res/k3-x1'' ''{\"ok\":true}'' ?s))
     = [(''echo/res/k3-x1'', ''echo/res/k3-x1'', JObj [(''ok'', JBool True)])]"
    using example_request_state
    by (simp add: on_message_def ks m
        example_response_payload lk invoke_def response_handler_def apply_format_def Let_def cs
        clearTimeout_def setHandlerForTopic_def resolve_def)
  then show ?thesis using lk pr by simp
qed

section \<open>The backoff object and several clients\<close>

lemma on_connect_fields:
  "fst (on_connect P cfg (b, s)) = backoff_reset b"
  "reconnectPeriod (snd (on_connect P cfg (b, s))) = reconnectPeriod s"
  by (simp_all add: on_connect_def Let_def)

lemma on_reconnect_ok:
  assumes "on_reconnect cfg r (b, s) = (None, b', s')" and "reconnectPeriod s = Some p"
  shows "b' = snd (backoff_next r b)" and "reconnectPeriod s' = Some (fst (backoff_next r b))"
  using assms by (auto simp: on_reconnect_def Let_def split_def split: if_splits)

lemma backoff_reset_fields:
  "initialDelay (backoff_reset b) = initialDelay b" "maxDelay (backoff_reset b) = maxDelay b"
  "factor (backoff_reset b) = factor b"
  "randomizationFactor (backoff_reset b) = randomizationFactor b"
  by (simp_all add: backoff_reset_def)

lemma connection_step_shared:
  assumes step: "connection_step P ev w = (None, w')"
    and cfg: "randomizationFactor (module_backoff w) = 0" "factor (module_backoff w) = 3"
      "maxDelay (module_backoff w) = 30000" "initialDelay (module_backoff w) = 100"
    and seq: "\<exists>e. nextOrInitial (module_backoff w) = real e
        \<and> (\<forall>k. min (e * 3 ^ k) 30000 = min (100 * 3 ^ (n + k)) 30000)"
    and opts: "\<forall>c. reconnectPeriod (clients w c) \<noteq> None"
  shows "randomizationFactor (module_backoff w') = 0 \<and> factor (module_backoff w') = 3
      \<and> maxDelay (module_backoff w') = 30000 \<and> initialDelay (module_backoff w') = 100
      \<and> (\<exists>e. nextOrInitial (module_backoff w') = real e
            \<and> (\<forall>k. min (e * 3 ^ k) 30000 = min (100 * 3 ^ (count_reconnects n [ev] + k)) 30000))
      \<and> (\<forall>c. reconnectPeriod (clients w' c) \<noteq> None)
      \<and> (\<forall>c r. ev = Reconnect c r \<longrightarrow>
            reconnectPeriod (clients w' c) = Some (int (min (100 * 3 ^ n) 30000)))"
proof (cases ev)
  case (Connect c)
  have w': "w' = w\<lparr>module_backoff := backoff_reset (module_backoff w),
      clients := (clients w)(c := snd (on_connect P (configs w c) (module_backoff w, clients w c)))\<rparr>"
    using step by (simp add: Connect split_def on_connect_fields)
  have "nextOrInitial (backoff_reset (module_backoff w)) = real 100
      \<and> (\<forall>k. min (100 * 3 ^ k) 30000 = min (100 * 3 ^ (0 + k)) (30000::nat))"
    using cfg by (simp add: nextOrInitial_reset)
  then have sq: "\<exists>e. nextOrInitial (backoff_reset (module_backoff w)) = real e
      \<and> (\<forall>k. min (e * 3 ^ k) 30000 = min (100 * 3 ^ (0 + k)) 30000)"
    by blast
  show ?thesis
    using cfg opts sq
    by (simp add: w' Connect backoff_reset_fields on_connect_fields)
next
  case (Reconnect c r)
  obtain b' s' where orc: "on_reconnect (configs w c) r (module_backoff w, clients w c) = (None, b', s')"
    and w': "w' = w\<lparr>module_backoff := b', clients := (clients w)(c := s')\<rparr>"
    using step
    by (cases "on_reconnect (configs w c) r (module_backoff w, clients w c)")
      (auto simp: Reconnect)
  obtain p where p: "reconnectPeriod (clients w c) = Some p" using opts by auto
  have b': "b' = snd (backoff_next r (module_backoff w))"
    and rp: "reconnectPeriod s' = Some (fst (backoff_next r (module_backoff w)))"
    using on_reconnect_ok[OF orc p] by simp_all
  obtain e where e: "nextOrInitial (module_backoff w) = real e"
    and sq: "\<forall>k. min (e * 3 ^ k) 30000 = min (100 * 3 ^ (n + k)) 30000"
    using seq by blast
  have c3: "factor (module_backoff w) = real 3" "maxDelay (module_backoff w) = real 30000"
    "initialDelay (module_backoff w) = real 100"
    using cfg by simp_all
  note nw = backoff_next_whole[OF cfg(1) c3(2) c3(1) c3(3) e, of r]
  have e0: "min e 30000 = min (100 * 3 ^ n) 30000" using sq[rule_format, of 0] by simp
  have pos: "e = 0 \<longrightarrow> (100::nat) = 0"
  proof
    assume "e = 0"
    then have "min (100 * 3 ^ n) (30000::nat) = 0" using e0 by simp
    then show "(100::nat) = 0" by (simp add: min_def split: if_splits)
  qed
  let ?e1 = "if min e 30000 * 3 = 0 then 100 else min e 30000 * 3"
  have st: "min (?e1 * 3 ^ k) 30000 = min (100 * 3 ^ (Suc n + k)) 30000" for k
    using whole_step[of 3 e 100 30000 k] pos sq[rule_format, of "Suc k"] by simp
  have d: "fst (backoff_next r (module_backoff w)) = int (min (100 * 3 ^ n) 30000)"
    using nw(1) e0 by simp
  have sq': "\<exists>e. nextOrInitial b' = real e
      \<and> (\<forall>k. min (e * 3 ^ k) 30000 = min (100 * 3 ^ (Suc n + k)) 30000)"
    using nw(2) st unfolding b' by blast
  show ?thesis
    using cfg opts sq' rp d
    by (simp add: w' Reconnect b' backoff_next_fields)
qed

lemma count_reconnects_Cons:
  "count_reconnects n (ev # evs) = count_reconnects (count_reconnects n [ev]) evs"
  by (cases ev) simp_all

lemma connection_run_shared:
  "connection_run P evs w = (None, w') \<Longrightarrow>
   randomizationFactor (module_backoff w) = 0 \<Longrightarrow> factor (module_backoff w) = 3 \<Longrightarrow>
   maxDelay (module_backoff w) = 30000 \<Longrightarrow> initialDelay (module_backoff w) = 100 \<Longrightarrow>
   \<exists>e. nextOrInitial (module_backoff w) = real e
       \<and> (\<forall>k. min (e * 3 ^ k) 30000 = min (100 * 3 ^ (n + k)) 30000) \<Longrightarrow>
   \<forall>c. reconnectPeriod (clients w c) \<noteq> None \<Longrightarrow>
   randomizationFactor (module_backoff w') = 0 \<and> factor (module_backoff w') = 3
      \<and> maxDelay (module_backoff w') = 30000 \<and> initialDelay (module_backoff w') = 100
      \<and> (\<exists>e. nextOrInitial (module_backoff w') = real e
            \<and> (\<forall>k. min (e * 3 ^ k) 30000 = min (100 * 3 ^ (count_reconnects n evs + k)) 30000))
      \<and> (\<forall>c. reconnectPeriod (clients w' c) \<noteq> None)"
proof (induction evs arbitrary: w n)
  case Nil
  then show ?case by simp
next
  case (Cons ev evs)
  obtain e w1 where st: "connection_step P ev w = (e, w1)" by (cases "connection_step P ev w")
  have e: "e = None" using Cons.prems(1) st by (cases e) simp_all
  have rest: "connection_run P evs w1 = (None, w')" using Cons.prems(1) st e by simp
  note s1 = connection_step_shared[OF st[unfolded e] Cons.prems(2-7)]
  show ?case
    using Cons.IH[OF rest, of "count_reconnects n [ev]"] s1
    by (simp add: count_reconnects_Cons[of n ev evs])
qed

lemma connection_run_snoc:
  "connection_run P (evs @ [ev]) w =
     (case connection_run P evs w of
        (Some e, w') \<Rightarrow> (Some e, w')
      | (None, w') \<Rightarrow> connection_step P ev w')"
proof (induction evs arbitrary: w)
  case Nil
  show ?case by (cases "connection_step P ev w") (auto split: option.splits)
next
  case (Cons a evs)
  show ?case using Cons.IH
    by (cases "connection_step P a w") (auto split: option.splits)
qed

lemma start_process_shared:
  "randomizationFactor (module_backoff (start_process P cfgs)) = 0"
  "factor (module_backoff (start_process P cfgs)) = 3"
  "maxDelay (module_backoff (start_process P cfgs)) = 30000"
  "initialDelay (module_backoff (start_process P cfgs)) = 100"
  "\<forall>c. reconnectPeriod (clients (start_process P cfgs) c) \<noteq> None"
  by (simp_all add: start_process_def backoff_module_def backoff_object_def
      initPubSubMQTT_def addTransform_def Let_def split: option.splits)

lemma start_process_sequence:
  "\<exists>e. nextOrInitial (module_backoff (start_process P cfgs)) = real e
        \<and> (\<forall>k. min (e * 3 ^ k) 30000 = min (100 * 3 ^ (0 + k)) 30000)"
proof -
  have "nextOrInitial (module_backoff (start_process P cfgs)) = real 100"
    by (simp add: start_process_def backoff_module_def nextOrInitial_fresh)
  then show ?thesis by (intro exI[of _ 100]) simp
qed

lemma reconnect_delay_shared:
  assumes "fst (connection_run P (evs @ [Reconnect c r]) (start_process P cfgs)) = None"
  shows "reconnectPeriod
           (clients (snd (connection_run P (evs @ [Reconnect c r]) (start_process P cfgs))) c)
         = Some (int (min (100 * 3 ^ reconnects_since_connect evs) 30000))"
proof -
  let ?w0 = "start_process P cfgs"
  obtain e w1 where r1: "connection_run P evs ?w0 = (e, w1)" by (cases "connection_run P evs ?w0")
  have e: "e = None" using assms r1 by (cases e) (simp_all add: connection_run_snoc)
  obtain e2 w2 where st: "connection_step P (Reconnect c r) w1 = (e2, w2)"
    by (cases "connection_step P (Reconnect c r) w1")
  have run: "connection_run P (evs @ [Reconnect c r]) ?w0 = (e2, w2)"
    using r1 e st by (simp add: connection_run_snoc)
  have e2: "e2 = None" using assms run by simp
  note i1 = connection_run_shared[OF r1[unfolded e] start_process_shared(1-4)
      start_process_sequence start_process_shared(5)]
  have "reconnectPeriod (clients w2 c)
      = Some (int (min (100 * 3 ^ count_reconnects 0 evs) 30000))"
    using connection_step_shared[OF st[unfolded e2], of "count_reconnects 0 evs"] i1
    by simp
  then show ?thesis using run by (simp add: reconnects_since_connect_def)
qed

lemma on_reconnect_returns:
  "Suc (connectionAttempt (snd bs)) \<le> maxConnectionAttempts cfg \<Longrightarrow>
   fst (on_reconnect cfg r bs) = None"
  by (simp add: on_reconnect_def Let_def split_def split: option.splits)


lemma init_connection_fields:
  "connectionAttempt (initPubSubMQTT P cfg co) = 0"
  "reconnectPeriod (initPubSubMQTT P cfg co) = co"
  by (simp_all add: initPubSubMQTT_def addTransform_def Let_def split: option.splits)

lemma on_reconnect_attempt:
  "connectionAttempt (snd (snd (on_reconnect cfg r bs))) = Suc (connectionAttempt (snd bs))"
  by (simp add: on_reconnect_def Let_def split_def split: option.splits)

lemma on_connect_attempt:
  "connectionAttempt (snd (on_connect P cfg bs)) = 0"
  by (simp add: on_connect_def Let_def split_def)

lemma example_runs_return:
  "fst (connection_run example_platform [Reconnect 0 0, Reconnect 1 0]
         (start_process example_platform (\<lambda>c. DEFAULTS))) = None"
  "fst (connection_run example_platform [Reconnect 1 0]
         (start_process example_platform (\<lambda>c. DEFAULTS))) = None"
  "fst (connection_run example_platform [Reconnect 1 0, Connect 0, Reconnect 1 0]
         (start_process example_platform (\<lambda>c. DEFAULTS))) = None"
  "fst (connection_run example_platform [Reconnect 1 0, Reconnect 1 0]
         (start_process example_platform (\<lambda>c. DEFAULTS))) = None"
  by (simp_all add: start_process_def split_def Let_def on_reconnect_returns
      on_reconnect_attempt init_connection_fields on_connect_attempt DEFAULTS_def
      split: option.splits prod.splits)


text \<open>
  C6 (as amended). The backoff state is the one object of the backoff module, shared by
  all clients of the process. From the start of the process, after any connection events
  of any clients during which no listener threw, a client that reconnects gets as its
  reconnect period \<open>min (100 * 3 ^ n) 30000\<close>, where \<open>n\<close> counts the reconnects of all
  clients since the last successful connect of any client.
\<close>

theorem shared_backoff:
  assumes "fst (connection_run P (evs @ [Reconnect c r]) (start_process P cfgs)) = None"
  shows "reconnectPeriod
           (clients (snd (connection_run P (evs @ [Reconnect c r]) (start_process P cfgs))) c)
         = Some (int (min (100 * 3 ^ reconnects_since_connect evs) 30000))"
  using assms by (rule reconnect_delay_shared)

theorem shared_backoff_witness:
  "reconnectPeriod (clients (snd (connection_run example_platform
       [Reconnect 1 0, Connect 0, Reconnect 1 0]
       (start_process example_platform (\<lambda>c. DEFAULTS)))) 1) = Some 100"
  using shared_backoff[of example_platform "[Reconnect 1 0, Connect 0]" 1 0 "\<lambda>c. DEFAULTS"]
    example_runs_return(3)
  by (simp add: reconnects_since_connect_def)

text \<open>
  The counterexample to C6 as stated, with two clients: the first reconnect of client 1
  gets 100 ms when client 1 is alone and 300 ms after a reconnect of client 0; the second
  reconnect of client 1 gets 300 ms, and 100 ms when client 0 connected in between.
\<close>

theorem backoff_shared_between_clients:
  "reconnectPeriod (clients (snd (connection_run example_platform
       [Reconnect 0 0, Reconnect 1 0]
       (start_process example_platform (\<lambda>c. DEFAULTS)))) 1) = Some 300
   \<and> reconnectPeriod (clients (snd (connection_run example_platform
       [Reconnect 1 0]
       (start_process example_platform (\<lambda>c. DEFAULTS)))) 1) = Some 100
   \<and> reconnectPeriod (clients (snd (connection_run example_platform
       [Reconnect 1 0, Connect 0, Reconnect 1 0]
       (start_process example_platform (\<lambda>c. DEFAULTS)))) 1) = Some 100
   \<and> reconnectPeriod (clients (snd (connection_run example_platform
       [Reconnect 1 0, Reconnect 1 0]
       (start_process example_platform (\<lambda>c. DEFAULTS)))) 1) = Some 300"
  using reconnect_delay_shared[of example_platform "[Reconnect 0 0]" 1 0 "\<lambda>c. DEFAULTS"]
    reconnect_delay_shared[of example_platform "[]" 1 0 "\<lambda>c. DEFAULTS"]
    reconnect_delay_shared[of example_platform "[Reconnect 1 0, Connect 0]" 1 0 "\<lambda>c. DEFAULTS"]
    reconnect_delay_shared[of example_platform "[Reconnect 1 0]" 1 0 "\<lambda>c. DEFAULTS"]
    example_runs_return
  by (simp add: reconnects_since_connect_def)


end
